theory Spec2Isabelle
  imports Main "HOL-Library.AList" "HOL-Library.Multiset"
begin

section \<open>Data model\<close>

text \<open>
  The node and network types of \<^verbatim>\<open>shared/types\<close> and \<^verbatim>\<open>types\<close>. The fields the
  source reads are \<^verbatim>\<open>networkId\<close>, \<^verbatim>\<open>name\<close>, \<^verbatim>\<open>implementation\<close>, \<^verbatim>\<open>status\<close> and
  \<^verbatim>\<open>backendName\<close>; the implementation tag is a string at run time and is compared with
  \<^verbatim>\<open>===\<close> against string literals, so it is a string here. JavaScript numbers that
  hold identifiers and counts are integers.
\<close>

datatype Status = Starting | Started | Stopping | Stopped | Error

record CommonNode =
  networkId :: int
  name :: string
  implementation :: string
  version :: string
  status :: Status
  ports :: "(string \<times> int) list"

text \<open>The RPC credentials of a bitcoin node are a field the spec's data model names.\<close>

record BitcoinNode = CommonNode +
  rpcCredentials :: string

record LightningNode = CommonNode +
  backendName :: string

record NetworkNodes =
  bitcoin :: "BitcoinNode list"
  lightning :: "LightningNode list"

text \<open>Of a network the source reads \<^verbatim>\<open>name\<close> (for log lines), \<^verbatim>\<open>path\<close> and \<^verbatim>\<open>nodes\<close>.\<close>

record Network =
  name :: string
  status :: Status
  path :: string
  nodes :: NetworkNodes

text \<open>A thrown JavaScript \<^verbatim>\<open>Error\<close>, carried as a value: its message.\<close>

datatype exn = Exception string

section \<open>Rendering a number in a template literal\<close>

definition digit_char :: "nat \<Rightarrow> char" where
  "digit_char d = ''0123456789'' ! d"

fun show_nat :: "nat \<Rightarrow> string" where
  "show_nat n = (if n < 10 then [digit_char n] else show_nat (n div 10) @ [digit_char (n mod 10)])"

definition show_int :: "int \<Rightarrow> string" where
  "show_int i = (if i < 0 then CHR ''-'' # show_nat (nat (- i)) else show_nat (nat i))"

section \<open>The bitcoind store model (\<^verbatim>\<open>store/models/bitcoind.ts\<close>)\<close>

text \<open>\<^verbatim>\<open>ChainInfo\<close> and \<^verbatim>\<open>WalletInfo\<close> come from the bitcoin-core client; the model keeps one
  field of each (the chain height \<^verbatim>\<open>blocks\<close>, the wallet balance).\<close>

record ChainInfo =
  chain_blocks :: int

record WalletInfo =
  balance :: int

record BitcoindNodeModel =
  chainInfo :: "ChainInfo option"
  walletInfo :: "WalletInfo option"

text \<open>\<^verbatim>\<open>`${node.networkId}-${node.name}`\<close>\<close>

definition getNetworkBackendId :: "BitcoinNode \<Rightarrow> string" where
  "getNetworkBackendId node = show_int (networkId node) @ ''-'' @ CommonNode.name node"

text \<open>
  The calls that leave the model: the methods of \<^verbatim>\<open>injections.bitcoindService\<close> and
  \<^verbatim>\<open>delay\<close>. The store state carries the cache \<^verbatim>\<open>nodes\<close> and, as a ghost field, the
  list of such calls issued so far.
\<close>

datatype rpc =
  ServiceMine int BitcoinNode
  | Delay nat
  | GetBlockchainInfo BitcoinNode
  | GetWalletInfo BitcoinNode

record BitcoindModel =
  nodes :: "string \<rightharpoonup> BitcoindNodeModel"
  issued :: "rpc list"

text \<open>
  What the injected collaborators answer. \<^verbatim>\<open>networkById\<close> is the computed property of the
  network model read through \<^verbatim>\<open>getStoreState()\<close>; its code is defined elsewhere in the repository,
  so it is a parameter, and it may throw.
\<close>

record injections =
  service_mine :: "int \<Rightarrow> BitcoinNode \<Rightarrow> exn + string list"
  service_getBlockchainInfo :: "BitcoinNode \<Rightarrow> exn + ChainInfo"
  service_getWalletInfo :: "BitcoinNode \<Rightarrow> exn + WalletInfo"
  networkById :: "int \<Rightarrow> exn + Network"

text \<open>The translation lookup \<^verbatim>\<open>l\<close> of \<^verbatim>\<open>prefixTranslation('store.models.bitcoind')\<close>,
  identified with the key it looks up.\<close>

definition l :: "string \<Rightarrow> string" where
  "l key = ''store.models.bitcoind.'' @ key"

definition removeNode :: "BitcoinNode \<Rightarrow> BitcoindModel \<Rightarrow> BitcoindModel" where
  "removeNode node state =
     state\<lparr>BitcoindModel.nodes := (BitcoindModel.nodes state)(getNetworkBackendId node := None)\<rparr>"

definition clearNodes :: "BitcoindModel \<Rightarrow> BitcoindModel" where
  "clearNodes state = state\<lparr>BitcoindModel.nodes := Map.empty\<rparr>"

definition setInfo :: "BitcoinNode \<Rightarrow> ChainInfo \<Rightarrow> WalletInfo \<Rightarrow> BitcoindModel \<Rightarrow> BitcoindModel" where
  "setInfo node ci wi state =
     (let ident = getNetworkBackendId node;
          ns = BitcoindModel.nodes state;
          ns1 = (if ns ident = None
                 then ns(ident \<mapsto> \<lparr>chainInfo = None, walletInfo = None\<rparr>) else ns);
          ns2 = ns1(ident := map_option (\<lambda>m. m\<lparr>chainInfo := Some ci\<rparr>) (ns1 ident));
          ns3 = ns2(ident := map_option (\<lambda>m. m\<lparr>walletInfo := Some wi\<rparr>) (ns2 ident))
      in state\<lparr>BitcoindModel.nodes := ns3\<rparr>)"

definition record_call :: "rpc \<Rightarrow> BitcoindModel \<Rightarrow> BitcoindModel" where
  "record_call c state = state\<lparr>issued := issued state @ [c]\<rparr>"

definition getInfo :: "injections \<Rightarrow> BitcoinNode \<Rightarrow> BitcoindModel \<Rightarrow> (exn + unit) \<times> BitcoindModel" where
  "getInfo svc node state =
     (let s1 = record_call (GetBlockchainInfo node) state in
      case service_getBlockchainInfo svc node of
        Inl e \<Rightarrow> (Inl e, s1)
      | Inr ci \<Rightarrow>
          (let s2 = record_call (GetWalletInfo node) s1 in
           case service_getWalletInfo svc node of
             Inl e \<Rightarrow> (Inl e, s2)
           | Inr wi \<Rightarrow> (Inr (), setInfo node ci wi s2)))"

text \<open>
  \<^verbatim>\<open>Promise.all(nodes.map(actions.getInfo))\<close>. Mapping starts every thunk, and each runs to
  its first \<^verbatim>\<open>await\<close>: the chain-info calls of all the nodes are issued first, in list
  order. A thunk whose chain-info call succeeded resumes with its wallet-info call, and
  one whose wallet-info call succeeded stores the info. The promises are taken to settle
  in the order they were made, so the thunks resume in list order at each stage, and the
  rejection the joined promise reports is the first in that time order: a failed
  chain-info call before a failed wallet-info call.
\<close>

fun resumed :: "injections \<Rightarrow> BitcoinNode list \<Rightarrow> (BitcoinNode \<times> ChainInfo) list" where
  "resumed svc [] = []"
| "resumed svc (n # ns) =
     (case service_getBlockchainInfo svc n of
        Inl e \<Rightarrow> resumed svc ns
      | Inr ci \<Rightarrow> (n, ci) # resumed svc ns)"

fun chain_rejections :: "injections \<Rightarrow> BitcoinNode list \<Rightarrow> exn list" where
  "chain_rejections svc [] = []"
| "chain_rejections svc (n # ns) =
     (case service_getBlockchainInfo svc n of
        Inl e \<Rightarrow> e # chain_rejections svc ns
      | Inr ci \<Rightarrow> chain_rejections svc ns)"

fun stored :: "injections \<Rightarrow> (BitcoinNode \<times> ChainInfo) list \<Rightarrow> (BitcoinNode \<times> ChainInfo \<times> WalletInfo) list" where
  "stored svc [] = []"
| "stored svc ((n, ci) # rs) =
     (case service_getWalletInfo svc n of
        Inl e \<Rightarrow> stored svc rs
      | Inr wi \<Rightarrow> (n, ci, wi) # stored svc rs)"

fun wallet_rejections :: "injections \<Rightarrow> (BitcoinNode \<times> ChainInfo) list \<Rightarrow> exn list" where
  "wallet_rejections svc [] = []"
| "wallet_rejections svc ((n, ci) # rs) =
     (case service_getWalletInfo svc n of
        Inl e \<Rightarrow> e # wallet_rejections svc rs
      | Inr wi \<Rightarrow> wallet_rejections svc rs)"

definition promise_all_getInfo ::
  "injections \<Rightarrow> BitcoinNode list \<Rightarrow> BitcoindModel \<Rightarrow> (exn + unit) \<times> BitcoindModel" where
  "promise_all_getInfo svc ns state =
     (let s1 = state\<lparr>issued := issued state @ map GetBlockchainInfo ns\<rparr>;
          rs = resumed svc ns;
          s2 = s1\<lparr>issued := issued s1 @ map (\<lambda>r. GetWalletInfo (fst r)) rs\<rparr>;
          s3 = fold (\<lambda>t. setInfo (fst t) (fst (snd t)) (snd (snd t))) (stored svc rs) s2
      in (case chain_rejections svc ns @ wallet_rejections svc rs of
            [] \<Rightarrow> Inr ()
          | e # es \<Rightarrow> Inl e, s3))"

definition mine :: "injections \<Rightarrow> int \<Rightarrow> BitcoinNode \<Rightarrow> BitcoindModel \<Rightarrow> (exn + unit) \<times> BitcoindModel" where
  "mine svc blocks node state =
     (if blocks < 0 then (Inl (Exception (l ''mineError'')), state)
      else
        (let s1 = record_call (ServiceMine blocks node) state in
         case service_mine svc blocks node of
           Inl e \<Rightarrow> (Inl e, s1)
         | Inr hashes \<Rightarrow>
             (let s2 = record_call (Delay 500) s1 in
              case networkById svc (networkId node) of
                Inl e \<Rightarrow> (Inl e, s2)
              | Inr network \<Rightarrow>
                  promise_all_getInfo svc
                    (filter (\<lambda>n. CommonNode.status n = Started) (bitcoin (Network.nodes network))) s2)))"

section \<open>Libraries the docker service calls\<close>

text \<open>\<^verbatim>\<open>path.join\<close> on two segments that need no normalising.\<close>

definition join :: "string \<Rightarrow> string \<Rightarrow> string" where
  "join a b = a @ ''/'' @ b"

text \<open>
  \<^verbatim>\<open>strip-ansi\<close> removes the matches of a regular expression for terminal escape
  sequences, left to right. The model covers the colour sequences: the escape character,
  an opening bracket, decimal parameters separated by semicolons, and the final letter m.
\<close>

definition ESC :: char where
  "ESC = CHR 0x1B"

fun sgr_tail :: "string \<Rightarrow> string option" where
  "sgr_tail [] = None"
| "sgr_tail (c # cs) =
     (if c = CHR ''m'' then Some cs
      else if c \<in> set ''0123456789;'' then sgr_tail cs
      else None)"

lemma sgr_tail_shorter: "sgr_tail cs = Some r \<Longrightarrow> length r < length cs"
  by (induction cs) (auto split: if_splits)

function stripAnsi :: "string \<Rightarrow> string" where
  "stripAnsi [] = []"
| "stripAnsi [c] = [c]"
| "stripAnsi (c # d # cs) =
     (if c = ESC \<and> d = CHR ''[''
      then (case sgr_tail cs of
              Some r \<Rightarrow> stripAnsi r
            | None \<Rightarrow> c # stripAnsi (d # cs))
      else c # stripAnsi (d # cs))"
  by pat_completeness auto
termination
  by (relation "measure length") (auto dest: sgr_tail_shorter)

text \<open>
  The result object of the \<^verbatim>\<open>docker-compose\<close> library; a failed command rejects with an
  object of the same shape. \<^verbatim>\<open>JSON.stringify\<close> of such an object, for texts of
  ASCII characters.
\<close>

record IDockerComposeResult =
  exitCode :: "int option"
  err :: string
  out :: string

definition hex_digit :: "nat \<Rightarrow> char" where
  "hex_digit d = ''0123456789abcdef'' ! d"

definition json_char :: "char \<Rightarrow> string" where
  "json_char c =
     (if c = CHR 0x22 then [CHR 0x5C, CHR 0x22]
      else if c = CHR 0x5C then [CHR 0x5C, CHR 0x5C]
      else if c = CHR 0x08 then [CHR 0x5C, CHR ''b'']
      else if c = CHR 0x0C then [CHR 0x5C, CHR ''f'']
      else if c = CHR 0x0A then [CHR 0x5C, CHR ''n'']
      else if c = CHR 0x0D then [CHR 0x5C, CHR ''r'']
      else if c = CHR 0x09 then [CHR 0x5C, CHR ''t'']
      else if (of_char c :: nat) < 32
        then [CHR 0x5C, CHR ''u'', CHR ''0'', CHR ''0'',
              hex_digit ((of_char c :: nat) div 16), hex_digit ((of_char c :: nat) mod 16)]
      else [c])"

definition json_string :: "string \<Rightarrow> string" where
  "json_string s = [CHR 0x22] @ concat (map json_char s) @ [CHR 0x22]"

definition JSON_stringify :: "IDockerComposeResult \<Rightarrow> string" where
  "JSON_stringify e =
     ''{'' @ json_string ''exitCode'' @ '':''
       @ (case exitCode e of None \<Rightarrow> ''null'' | Some n \<Rightarrow> show_int n)
       @ '','' @ json_string ''err'' @ '':'' @ json_string (err e)
       @ '','' @ json_string ''out'' @ '':'' @ json_string (out e) @ ''}''"

section \<open>The docker service (\<^verbatim>\<open>DockerService\<close>)\<close>

subsection \<open>Running compose commands\<close>

text \<open>
  \<^verbatim>\<open>execute\<close> receives the outcome of the compose function it awaits: \<open>Inr\<close> a result the
  promise resolved with, \<open>Inl\<close> the object it rejected with.
\<close>

definition execute :: "IDockerComposeResult + IDockerComposeResult \<Rightarrow> exn + IDockerComposeResult" where
  "execute outcome =
     (case outcome of
        Inr result \<Rightarrow>
          (let r1 = result\<lparr>out := stripAnsi (out result)\<rparr>;
               r2 = r1\<lparr>err := stripAnsi (err r1)\<rparr>
           in Inr r2)
      | Inl e \<Rightarrow>
          (let e1 = e\<lparr>err := stripAnsi (err e)\<rparr>
           in Inl (Exception (if err e1 \<noteq> [] then err e1 else JSON_stringify e1))))"

text \<open>
  The effects of the service on the host: creating a directory and running a compose
  command in a working directory. The service state carries the list of the effects
  issued so far; what the host answers may depend on all that went before.
\<close>

datatype compose_cmd = Version | UpAll | Down | UpOne string | StopOne string | Rm string

datatype effect = EnsureDir string | Compose compose_cmd string

text \<open>
  The host, with the two directory names of \<^verbatim>\<open>dockerConfigs['c-lightning']\<close>, a table of
  \<^verbatim>\<open>utils/constants\<close> that is defined elsewhere in the repository.
\<close>

record host =
  run_compose :: "effect list \<Rightarrow> compose_cmd \<Rightarrow> string \<Rightarrow> IDockerComposeResult + IDockerComposeResult"
  run_ensureDir :: "effect list \<Rightarrow> string \<Rightarrow> exn option"
  clightning_dataDir :: string
  clightning_apiDir :: string

definition compose_call ::
  "host \<Rightarrow> compose_cmd \<Rightarrow> string \<Rightarrow> effect list \<Rightarrow> (exn + IDockerComposeResult) \<times> effect list" where
  "compose_call h cmd cwd tr = (execute (run_compose h tr cmd cwd), tr @ [Compose cmd cwd])"

definition ensureDir :: "host \<Rightarrow> string \<Rightarrow> effect list \<Rightarrow> (exn + unit) \<times> effect list" where
  "ensureDir h dir tr =
     (case run_ensureDir h tr dir of
        Some e \<Rightarrow> (Inl e, tr @ [EnsureDir dir])
      | None \<Rightarrow> (Inr (), tr @ [EnsureDir dir]))"

text \<open>
  Modelled from the spec: \<^verbatim>\<open>nodePath\<close> of \<^verbatim>\<open>utils/config\<close> is defined elsewhere in the repository;
  the per-node data directory is \<^verbatim>\<open><network-root>/<implementation>/<node-name>\<close>.
\<close>

definition nodePath :: "Network \<Rightarrow> string \<Rightarrow> string \<Rightarrow> string" where
  "nodePath network impl nm = join (join (path network) impl) nm"

fun ensureDirs :: "host \<Rightarrow> Network \<Rightarrow> CommonNode list \<Rightarrow> effect list \<Rightarrow> (exn + unit) \<times> effect list" where
  "ensureDirs h network [] tr = (Inr (), tr)"
| "ensureDirs h network (node # rest) tr =
     (let nodeDir = nodePath network (implementation node) (CommonNode.name node) in
      case ensureDir h nodeDir tr of
        (Inl e, t1) \<Rightarrow> (Inl e, t1)
      | (Inr u, t1) \<Rightarrow>
          (if implementation node = ''c-lightning''
           then (case ensureDir h (join nodeDir (clightning_dataDir h)) t1 of
                   (Inl e, t2) \<Rightarrow> (Inl e, t2)
                 | (Inr u, t2) \<Rightarrow>
                     (case ensureDir h (join nodeDir (clightning_apiDir h)) t2 of
                        (Inl e, t3) \<Rightarrow> (Inl e, t3)
                      | (Inr u, t3) \<Rightarrow> ensureDirs h network rest t3))
           else ensureDirs h network rest t1))"

definition stopNode :: "host \<Rightarrow> Network \<Rightarrow> CommonNode \<Rightarrow> effect list \<Rightarrow> (exn + unit) \<times> effect list" where
  "stopNode h network node tr =
     (case compose_call h (StopOne (CommonNode.name node)) (path network) tr of
        (Inl e, t1) \<Rightarrow> (Inl e, t1)
      | (Inr result, t1) \<Rightarrow> (Inr (), t1))"

definition startNode :: "host \<Rightarrow> Network \<Rightarrow> CommonNode \<Rightarrow> effect list \<Rightarrow> (exn + unit) \<times> effect list" where
  "startNode h network node tr =
     (case ensureDirs h network [node] tr of
        (Inl e, t1) \<Rightarrow> (Inl e, t1)
      | (Inr u, t1) \<Rightarrow>
          (case stopNode h network node t1 of
             (Inl e, t2) \<Rightarrow> (Inl e, t2)
           | (Inr u, t2) \<Rightarrow>
               (case compose_call h (UpOne (CommonNode.name node)) (path network) t2 of
                  (Inl e, t3) \<Rightarrow> (Inl e, t3)
                | (Inr result, t3) \<Rightarrow> (Inr (), t3))))"

definition start :: "host \<Rightarrow> Network \<Rightarrow> effect list \<Rightarrow> (exn + unit) \<times> effect list" where
  "start h network tr =
     (case ensureDirs h network
             (map CommonNode.truncate (bitcoin (Network.nodes network))
              @ map CommonNode.truncate (lightning (Network.nodes network))) tr of
        (Inl e, t1) \<Rightarrow> (Inl e, t1)
      | (Inr u, t1) \<Rightarrow>
          (case compose_call h UpAll (path network) t1 of
             (Inl e, t2) \<Rightarrow> (Inl e, t2)
           | (Inr result, t2) \<Rightarrow> (Inr (), t2)))"

definition stop :: "host \<Rightarrow> Network \<Rightarrow> effect list \<Rightarrow> (exn + unit) \<times> effect list" where
  "stop h network tr =
     (case compose_call h Down (path network) tr of
        (Inl e, t1) \<Rightarrow> (Inl e, t1)
      | (Inr result, t1) \<Rightarrow> (Inr (), t1))"

subsection \<open>Listing the pulled images\<close>

record ImageInfo =
  RepoTags :: "string list option"

text \<open>\<^verbatim>\<open>Array.prototype.indexOf\<close>: the first index of the element, or -1.\<close>

fun indexOf :: "'a list \<Rightarrow> 'a \<Rightarrow> int" where
  "indexOf [] x = - 1"
| "indexOf (y # ys) x =
     (if y = x then 0 else (let r = indexOf ys x in if r < 0 then - 1 else r + 1))"

text \<open>\<^verbatim>\<open>xs.filter((x, index) => p(x, index))\<close>, the index counted from \<open>i\<close>.\<close>

fun filter_indexed :: "('a \<Rightarrow> int \<Rightarrow> bool) \<Rightarrow> int \<Rightarrow> 'a list \<Rightarrow> 'a list" where
  "filter_indexed p i [] = []"
| "filter_indexed p i (x # xs) =
     (if p x i then x # filter_indexed p (i + 1) xs else filter_indexed p (i + 1) xs)"

definition getImages_try :: "exn + ImageInfo list \<Rightarrow> exn + string list" where
  "getImages_try listed =
     (case listed of
        Inl e \<Rightarrow> Inl e
      | Inr allImages \<Rightarrow>
          (let imageNames =
                 filter (\<lambda>n. n \<noteq> ''<none>:<none>'')
                   (concat (map (\<lambda>i. case RepoTags i of Some tags \<Rightarrow> tags | None \<Rightarrow> []) allImages));
               uniqueNames =
                 filter_indexed (\<lambda>image index. indexOf imageNames image = index) 0 imageNames
           in Inr uniqueNames))"

text \<open>The \<^verbatim>\<open>catch\<close> of \<^verbatim>\<open>getImages\<close>; its argument is the outcome of
  \<^verbatim>\<open>docker.listImages()\<close>.\<close>

definition getImages :: "exn + ImageInfo list \<Rightarrow> string list" where
  "getImages listed = (case getImages_try listed of Inl e \<Rightarrow> [] | Inr names \<Rightarrow> names)"

subsection \<open>The compose file\<close>

text \<open>
  Modelled from the spec: the class \<^verbatim>\<open>ComposeFile\<close> (\<^verbatim>\<open>./composeFile\<close>) is defined
  elsewhere in the repository. Its content is a document of services keyed by service name, in the
  order of their first insertion; a service is named by its node's name, references the
  node's implementation/version image and exposes the node's ports; the service of a
  lightning node references its backend's service name and RPC credentials, so a
  lightning node cannot be added without a backend.
\<close>

record ComposeService =
  svc_image :: string
  svc_ports :: "(string \<times> int) list"
  svc_backend :: "(string \<times> string) option"

text \<open>Modelled from the spec: the content of a compose file, its services in the order
  of their first insertion.\<close>

record ComposeContent =
  services :: "(string \<times> ComposeService) list"

text \<open>Modelled from the spec: a new \<^verbatim>\<open>ComposeFile\<close> declares no service.\<close>

definition new_ComposeFile :: ComposeContent where
  "new_ComposeFile = \<lparr>services = []\<rparr>"

text \<open>Modelled from the spec: storing a service under a name replaces the service of that
  name where there is one and adds it after the others where there is none.\<close>

definition set_service :: "string \<Rightarrow> ComposeService \<Rightarrow> ComposeContent \<Rightarrow> ComposeContent" where
  "set_service nm svc file = file\<lparr>services := AList.update nm svc (services file)\<rparr>"

text \<open>Modelled from the spec: the image of a node is that of its implementation and
  version.\<close>

definition node_image :: "'a CommonNode_scheme \<Rightarrow> string" where
  "node_image node = implementation node @ '':'' @ CommonNode.version node"

text \<open>Modelled from the spec: the service of a bitcoin node (image, ports, no backend)
  and of a lightning node (image, ports, its backend's service name and credentials).\<close>

definition bitcoin_service :: "BitcoinNode \<Rightarrow> ComposeService" where
  "bitcoin_service node =
     \<lparr>svc_image = node_image node, svc_ports = ports node, svc_backend = None\<rparr>"

definition lightning_service :: "LightningNode \<Rightarrow> BitcoinNode \<Rightarrow> ComposeService" where
  "lightning_service node b =
     \<lparr>svc_image = node_image node, svc_ports = ports node,
      svc_backend = Some (CommonNode.name b, rpcCredentials b)\<rparr>"

text \<open>Modelled from the spec: \<^verbatim>\<open>addBitcoind\<close> declares the node's service under the
  node's name.\<close>

definition addBitcoind :: "BitcoinNode \<Rightarrow> ComposeContent \<Rightarrow> exn + ComposeContent" where
  "addBitcoind node file = Inr (set_service (CommonNode.name node) (bitcoin_service node) file)"

text \<open>Modelled from the spec: \<^verbatim>\<open>addLnd\<close>, \<^verbatim>\<open>addClightning\<close> and \<^verbatim>\<open>addEclair\<close> declare the
  node's service under the node's name; they read the backend's name and credentials,
  which throws when the backend is \<^verbatim>\<open>undefined\<close>.\<close>

definition add_lightning :: "LightningNode \<Rightarrow> BitcoinNode option \<Rightarrow> ComposeContent \<Rightarrow> exn + ComposeContent" where
  "add_lightning node backend file =
     (case backend of
        None \<Rightarrow> Inl (Exception ''TypeError: Cannot read property name of undefined'')
      | Some b \<Rightarrow> Inr (set_service (CommonNode.name node) (lightning_service node b) file))"

text \<open>Modelled from the spec: the three methods for the lightning implementations.\<close>

definition addLnd :: "LightningNode \<Rightarrow> BitcoinNode option \<Rightarrow> ComposeContent \<Rightarrow> exn + ComposeContent" where
  "addLnd = add_lightning"

definition addClightning :: "LightningNode \<Rightarrow> BitcoinNode option \<Rightarrow> ComposeContent \<Rightarrow> exn + ComposeContent" where
  "addClightning = add_lightning"

definition addEclair :: "LightningNode \<Rightarrow> BitcoinNode option \<Rightarrow> ComposeContent \<Rightarrow> exn + ComposeContent" where
  "addEclair = add_lightning"

text \<open>\<^verbatim>\<open>bitcoin.find(n => n.name === backendName) || bitcoin[0]\<close>; reading index 0 of an
  empty array gives \<^verbatim>\<open>undefined\<close>, here \<open>None\<close>.\<close>

definition resolveBackend :: "BitcoinNode list \<Rightarrow> string \<Rightarrow> BitcoinNode option" where
  "resolveBackend bs bname =
     (case find (\<lambda>n. CommonNode.name n = bname) bs of
        Some n \<Rightarrow> Some n
      | None \<Rightarrow> (case bs of [] \<Rightarrow> None | b # rest \<Rightarrow> Some b))"

text \<open>\<^verbatim>\<open>xs.forEach(f)\<close> for a callback that may throw: the first exception ends the loop.\<close>

fun forEach :: "('a \<Rightarrow> 's \<Rightarrow> exn + 's) \<Rightarrow> 'a list \<Rightarrow> 's \<Rightarrow> exn + 's" where
  "forEach f [] s = Inr s"
| "forEach f (x # xs) s = (case f x s of Inl e \<Rightarrow> Inl e | Inr s1 \<Rightarrow> forEach f xs s1)"

text \<open>The callback of \<^verbatim>\<open>lightning.forEach\<close>: three \<^verbatim>\<open>if\<close> statements in a row, none with
  an \<^verbatim>\<open>else\<close>.\<close>

definition lightning_callback :: "BitcoinNode list \<Rightarrow> LightningNode \<Rightarrow> ComposeContent \<Rightarrow> exn + ComposeContent" where
  "lightning_callback bs node file =
     (case (if implementation node = ''LND''
            then addLnd node (resolveBackend bs (backendName node)) file else Inr file) of
        Inl e \<Rightarrow> Inl e
      | Inr f1 \<Rightarrow>
          (case (if implementation node = ''c-lightning''
                 then addClightning node (resolveBackend bs (backendName node)) f1 else Inr f1) of
             Inl e \<Rightarrow> Inl e
           | Inr f2 \<Rightarrow>
               (if implementation node = ''eclair''
                then addEclair node (resolveBackend bs (backendName node)) f2 else Inr f2)))"

text \<open>The content \<^verbatim>\<open>saveComposeFile\<close> hands to \<^verbatim>\<open>yaml.dump\<close>.\<close>

definition compose_content :: "Network \<Rightarrow> exn + ComposeContent" where
  "compose_content network =
     (case forEach addBitcoind (bitcoin (Network.nodes network)) new_ComposeFile of
        Inl e \<Rightarrow> Inl e
      | Inr f1 \<Rightarrow>
          forEach (lightning_callback (bitcoin (Network.nodes network)))
            (lightning (Network.nodes network)) f1)"

subsection \<open>Files\<close>

text \<open>
  The file system: the text of each file by its path, and the directories. \<^verbatim>\<open>write\<close>,
  \<^verbatim>\<open>read\<close> and \<^verbatim>\<open>exists\<close> are those of \<^verbatim>\<open>utils/files\<close>; writing is taken to succeed.
\<close>

record fs =
  files :: "string \<rightharpoonup> string"
  dirs :: "string set"

definition fs_write :: "string \<Rightarrow> string \<Rightarrow> fs \<Rightarrow> fs" where
  "fs_write p text f = f\<lparr>files := (files f)(p \<mapsto> text)\<rparr>"



record NetworksFile =
  version :: string
  networks :: "Network list"
  charts :: "(int \<times> string) list"

text \<open>
  The constants and library functions the persistence code reads: \<^verbatim>\<open>APP_VERSION\<close>,
  \<^verbatim>\<open>process.env.NODE_ENV\<close>, the two data paths of \<^verbatim>\<open>utils/config\<close>, \<^verbatim>\<open>JSON.stringify\<close>
  and \<^verbatim>\<open>JSON.parse\<close> on a networks document, \<^verbatim>\<open>yaml.dump\<close>, \<^verbatim>\<open>copy\<close> of fs-extra, and the
  table of migration steps: for each earlier schema version, in order, the step that
  takes a document of that version to the next one.
\<close>

record env =
  APP_VERSION :: string
  NODE_ENV :: string
  networksPath :: string
  legacyDataPath :: string
  stringify :: "NetworksFile \<Rightarrow> string"
  parse :: "string \<Rightarrow> exn + NetworksFile"
  yaml_dump :: "ComposeContent \<Rightarrow> string"
  copy :: "string \<Rightarrow> string \<Rightarrow> fs \<Rightarrow> exn + fs"
  migrations :: "(string \<times> (NetworksFile \<Rightarrow> NetworksFile)) list"

definition saveComposeFile :: "env \<Rightarrow> Network \<Rightarrow> fs \<Rightarrow> (exn + unit) \<times> fs" where
  "saveComposeFile ev network f =
     (case compose_content network of
        Inl e \<Rightarrow> (Inl e, f)
      | Inr file \<Rightarrow>
          (let yml = yaml_dump ev file;
               p = join (path network) ''docker-compose.yml''
           in (Inr (), fs_write p yml f)))"





section \<open>A sample network\<close>

text \<open>
  Network 1 has three bitcoin nodes, two of them started, and three lightning nodes, one
  of which names a backend that is not in the network. A node called backend1 also
  exists in network 2.
\<close>

definition backend1 :: BitcoinNode where
  "backend1 = \<lparr>networkId = 1, CommonNode.name = ''backend1'', implementation = ''bitcoind'',
     CommonNode.version = ''0.19.0.1'', CommonNode.status = Started, ports = [(''rpc'', 18443)],
     rpcCredentials = ''polaruser:polarpass''\<rparr>"

definition backend2 :: BitcoinNode where
  "backend2 = \<lparr>networkId = 1, CommonNode.name = ''backend2'', implementation = ''bitcoind'',
     CommonNode.version = ''0.19.0.1'', CommonNode.status = Started, ports = [(''rpc'', 18444)],
     rpcCredentials = ''polaruser:polarpass''\<rparr>"

definition backend3 :: BitcoinNode where
  "backend3 = \<lparr>networkId = 1, CommonNode.name = ''backend3'', implementation = ''bitcoind'',
     CommonNode.version = ''0.18.1'', CommonNode.status = Stopped, ports = [(''rpc'', 18445)],
     rpcCredentials = ''polaruser:polarpass''\<rparr>"

definition backend1_of_network2 :: BitcoinNode where
  "backend1_of_network2 = backend1\<lparr>networkId := 2\<rparr>"

definition alice :: LightningNode where
  "alice = \<lparr>networkId = 1, CommonNode.name = ''alice'', implementation = ''LND'',
     CommonNode.version = ''0.9.1-beta'', CommonNode.status = Stopped, ports = [(''rest'', 8081)],
     backendName = ''backend2''\<rparr>"

definition bob :: LightningNode where
  "bob = \<lparr>networkId = 1, CommonNode.name = ''bob'', implementation = ''c-lightning'',
     CommonNode.version = ''0.8.1'', CommonNode.status = Stopped, ports = [(''rest'', 8182)],
     backendName = ''backend9''\<rparr>"

definition carol :: LightningNode where
  "carol = \<lparr>networkId = 1, CommonNode.name = ''carol'', implementation = ''eclair'',
     CommonNode.version = ''0.3.3'', CommonNode.status = Stopped, ports = [(''rest'', 8283)],
     backendName = ''backend1''\<rparr>"

definition network1 :: Network where
  "network1 = \<lparr>Network.name = ''sample'', Network.status = Started, path = ''/polar/networks/1'',
     Network.nodes = \<lparr>bitcoin = [backend1, backend2, backend3], lightning = [alice, bob, carol]\<rparr>\<rparr>"

definition sample_services :: injections where
  "sample_services = \<lparr>
     service_mine = (\<lambda>n node. Inr []),
     service_getBlockchainInfo = (\<lambda>node. Inr \<lparr>chain_blocks = 107\<rparr>),
     service_getWalletInfo = (\<lambda>node. Inr \<lparr>balance = 50\<rparr>),
     networkById = (\<lambda>i. if i = 1 then Inr network1 else Inl (Exception ''networkByIdErr''))\<rparr>"

definition sample_store :: BitcoindModel where
  "sample_store = \<lparr>
     BitcoindModel.nodes =
       [''1-backend1'' \<mapsto> \<lparr>chainInfo = Some \<lparr>chain_blocks = 101\<rparr>, walletInfo = Some \<lparr>balance = 50\<rparr>\<rparr>,
        ''1-backend3'' \<mapsto> \<lparr>chainInfo = Some \<lparr>chain_blocks = 100\<rparr>, walletInfo = None\<rparr>,
        ''2-backend1'' \<mapsto> \<lparr>chainInfo = Some \<lparr>chain_blocks = 7\<rparr>, walletInfo = Some \<lparr>balance = 0\<rparr>\<rparr>],
     issued = []\<rparr>"

text \<open>A host on which every command succeeds, and one on which stopping a service fails.\<close>

definition failed_with_output :: IDockerComposeResult where
  "failed_with_output = \<lparr>exitCode = Some 1, err = [], out = [ESC] @ ''[31mboom'' @ [ESC] @ ''[0m''\<rparr>"

definition failed_with_error :: IDockerComposeResult where
  "failed_with_error =
     \<lparr>exitCode = Some 1, err = [ESC] @ ''[31mNo such service: bob'' @ [ESC] @ ''[0m'', out = []\<rparr>"

definition sample_host :: host where
  "sample_host = \<lparr>
     run_compose = (\<lambda>tr cmd cwd. Inr \<lparr>exitCode = Some 0, err = [], out = ''done''\<rparr>),
     run_ensureDir = (\<lambda>tr dir. None),
     clightning_dataDir = ''lightningd'',
     clightning_apiDir = ''rest-api''\<rparr>"

definition wedged_host :: host where
  "wedged_host = sample_host\<lparr>run_compose :=
     (\<lambda>tr cmd cwd. case cmd of
         StopOne n \<Rightarrow> Inl failed_with_error
       | _ \<Rightarrow> Inr \<lparr>exitCode = Some 0, err = [], out = ''done''\<rparr>)\<rparr>"

definition sample_images :: "ImageInfo list" where
  "sample_images =
     [\<lparr>RepoTags = Some [''polarlightning/lnd:0.9.1-beta'', ''<none>:<none>'']\<rparr>,
      \<lparr>RepoTags = None\<rparr>,
      \<lparr>RepoTags = Some [''polarlightning/bitcoind:0.19.0.1'', ''polarlightning/lnd:0.9.1-beta'']\<rparr>]"

text \<open>An environment: a YAML printer that lists each service with its image, and a JSON
  codec that keeps the version tag of a document (enough for a document without
  networks and charts).\<close>

definition sample_dump :: "ComposeContent \<Rightarrow> string" where
  "sample_dump file = concat (map (\<lambda>kv. fst kv @ '': '' @ svc_image (snd kv) @ ''; '') (services file))"

definition sample_env :: env where
  "sample_env = \<lparr>
     APP_VERSION = ''1.0.0'',
     NODE_ENV = ''production'',
     networksPath = ''/polar/networks'',
     legacyDataPath = ''/polar-legacy'',
     stringify = (\<lambda>d. NetworksFile.version d),
     parse = (\<lambda>text. Inr \<lparr>version = text, networks = [], charts = []\<rparr>),
     yaml_dump = sample_dump,
     copy = (\<lambda>src dst f. Inl (Exception ''ENOENT'')),
     migrations = [(''0.1.0'', (\<lambda>d. d)), (''0.2.0'', (\<lambda>d. d))]\<rparr>"

definition empty_fs :: fs where
  "empty_fs = \<lparr>files = Map.empty, dirs = {}\<rparr>"


text \<open>Whether an effect is the creation of a directory.\<close>

definition is_EnsureDir :: "effect \<Rightarrow> bool" where
  "is_EnsureDir c = (case c of EnsureDir d \<Rightarrow> True | Compose cmd cwd \<Rightarrow> False)"

section \<open>Decimal rendering is injective\<close>

declare show_nat.simps [simp del]

lemma digit_char_mem: "d < 10 \<Longrightarrow> digit_char d \<in> set ''0123456789''"
  unfolding digit_char_def by (rule nth_mem) simp

lemma digit_char_inj: "a < 10 \<Longrightarrow> b < 10 \<Longrightarrow> digit_char a = digit_char b \<Longrightarrow> a = b"
  unfolding digit_char_def
  by (subst (asm) nth_eq_iff_index_eq) simp_all

lemma show_nat_digits: "set (show_nat n) \<subseteq> set ''0123456789''"
proof (induction n rule: show_nat.induct)
  case (1 n)
  show ?case
  proof (cases "n < 10")
    case True
    then show ?thesis using digit_char_mem [of n] by (subst show_nat.simps) simp
  next
    case False
    have "n mod 10 < 10" by simp
    then have "digit_char (n mod 10) \<in> set ''0123456789''" by (rule digit_char_mem)
    with False 1 show ?thesis by (subst show_nat.simps) simp
  qed
qed

lemma show_nat_nonempty: "show_nat n \<noteq> []"
  by (subst show_nat.simps) simp

lemma show_nat_inj: "show_nat n = show_nat m \<Longrightarrow> n = m"
proof (induction n arbitrary: m rule: show_nat.induct)
  case (1 n)
  show ?case
  proof (cases "n < 10")
    case n: True
    show ?thesis
    proof (cases "m < 10")
      case True
      with n 1(2) show ?thesis
        by (simp add: show_nat.simps [of n] show_nat.simps [of m] digit_char_inj)
    next
      case False
      with n 1(2) show ?thesis
        using show_nat_nonempty [of "m div 10"]
        by (simp add: show_nat.simps [of n] show_nat.simps [of m])
    qed
  next
    case n: False
    show ?thesis
    proof (cases "m < 10")
      case True
      with n 1(2) show ?thesis
        using show_nat_nonempty [of "n div 10"]
        by (simp add: show_nat.simps [of n] show_nat.simps [of m])
    next
      case False
      with n 1(2) have e: "show_nat (n div 10) = show_nat (m div 10)"
        and d: "digit_char (n mod 10) = digit_char (m mod 10)"
        by (simp_all add: show_nat.simps [of n] show_nat.simps [of m])
      from 1(1) [OF n e] have "n div 10 = m div 10" .
      moreover from d have "n mod 10 = m mod 10" by (intro digit_char_inj) simp_all
      ultimately show ?thesis by (metis div_mult_mod_eq)
    qed
  qed
qed

lemma show_nat_no_minus: "CHR ''-'' \<notin> set (show_nat n)"
  using show_nat_digits [of n] by auto

lemma takeWhile_until_first:
  "x \<notin> set xs \<Longrightarrow> takeWhile (\<lambda>c. c \<noteq> x) (xs @ x # ys) = xs"
  by (induction xs) auto

lemma split_at_first:
  assumes "x \<notin> set xs" "x \<notin> set xs'" "xs @ x # ys = xs' @ x # ys'"
  shows "xs = xs' \<and> ys = ys'"
proof -
  have "takeWhile (\<lambda>c. c \<noteq> x) (xs @ x # ys) = xs"
    using assms(1) by (rule takeWhile_until_first)
  moreover have "takeWhile (\<lambda>c. c \<noteq> x) (xs' @ x # ys') = xs'"
    using assms(2) by (rule takeWhile_until_first)
  ultimately have "xs = xs'" using assms(3) by simp
  with assms(3) show ?thesis by simp
qed

lemma show_int_key_inj:
  assumes "show_int i @ CHR ''-'' # a = show_int j @ CHR ''-'' # b"
  shows "i = j \<and> a = b"
proof -
  consider (pp) "0 \<le> i" "0 \<le> j" | (nn) "i < 0" "j < 0" | (pn) "0 \<le> i" "j < 0" | (np) "i < 0" "0 \<le> j"
    by linarith
  then show ?thesis
  proof cases
    case pp
    with assms have "show_nat (nat i) @ CHR ''-'' # a = show_nat (nat j) @ CHR ''-'' # b"
      by (simp add: show_int_def)
    then have "show_nat (nat i) = show_nat (nat j) \<and> a = b"
      by (rule split_at_first [OF show_nat_no_minus show_nat_no_minus])
    with pp show ?thesis by (auto dest: show_nat_inj)
  next
    case nn
    with assms have "show_nat (nat (- i)) @ CHR ''-'' # a = show_nat (nat (- j)) @ CHR ''-'' # b"
      by (simp add: show_int_def)
    then have "show_nat (nat (- i)) = show_nat (nat (- j)) \<and> a = b"
      by (rule split_at_first [OF show_nat_no_minus show_nat_no_minus])
    with nn show ?thesis by (auto dest: show_nat_inj)
  next
    case pn
    with assms have "show_nat (nat i) @ CHR ''-'' # a = CHR ''-'' # show_nat (nat (- j)) @ CHR ''-'' # b"
      by (simp add: show_int_def)
    then have "hd (show_nat (nat i)) = CHR ''-''"
      using show_nat_nonempty [of "nat i"] by (cases "show_nat (nat i)") simp_all
    then show ?thesis
      using show_nat_no_minus [of "nat i"] show_nat_nonempty [of "nat i"] hd_in_set by metis
  next
    case np
    with assms have "CHR ''-'' # show_nat (nat (- i)) @ CHR ''-'' # a = show_nat (nat j) @ CHR ''-'' # b"
      by (simp add: show_int_def)
    then have "hd (show_nat (nat j)) = CHR ''-''"
      using show_nat_nonempty [of "nat j"] by (cases "show_nat (nat j)") simp_all
    then show ?thesis
      using show_nat_no_minus [of "nat j"] show_nat_nonempty [of "nat j"] hd_in_set by metis
  qed
qed

lemma getNetworkBackendId_inj:
  "(getNetworkBackendId a = getNetworkBackendId b)
     = (networkId a = networkId b \<and> CommonNode.name a = CommonNode.name b)"
  using show_int_key_inj [of "networkId a" "CommonNode.name a" "networkId b" "CommonNode.name b"]
  by (auto simp: getNetworkBackendId_def)

section \<open>Properties of the bitcoind store model\<close>

lemma setInfo_nodes:
  "BitcoindModel.nodes (setInfo node ci wi state) k =
     (if k = getNetworkBackendId node then Some \<lparr>chainInfo = Some ci, walletInfo = Some wi\<rparr>
      else BitcoindModel.nodes state k)"
  by (cases "BitcoindModel.nodes state (getNetworkBackendId node)") (simp_all add: setInfo_def Let_def)

lemma setInfo_issued: "issued (setInfo node ci wi state) = issued state"
  by (simp add: setInfo_def Let_def)

lemma getInfo_frame:
  "k \<noteq> getNetworkBackendId node \<Longrightarrow>
     BitcoindModel.nodes (snd (getInfo svc node state)) k = BitcoindModel.nodes state k"
  by (simp add: getInfo_def Let_def record_call_def setInfo_nodes split: sum.splits)

lemma getInfo_success:
  assumes "fst (getInfo svc node state) = Inr ()"
  shows "\<exists>ci wi. service_getBlockchainInfo svc node = Inr ci \<and> service_getWalletInfo svc node = Inr wi
           \<and> BitcoindModel.nodes (snd (getInfo svc node state)) (getNetworkBackendId node)
               = Some \<lparr>chainInfo = Some ci, walletInfo = Some wi\<rparr>
           \<and> issued (snd (getInfo svc node state))
               = issued state @ [GetBlockchainInfo node, GetWalletInfo node]"
  using assms
  by (auto simp: getInfo_def Let_def record_call_def setInfo_nodes setInfo_issued split: sum.splits)

lemma promise_all_getInfo_single: "promise_all_getInfo svc [n] state = getInfo svc n state"
  by (simp add: promise_all_getInfo_def getInfo_def record_call_def Let_def split: sum.splits)

lemma resumed_sound:
  "r \<in> set (resumed svc ns) \<Longrightarrow> fst r \<in> set ns \<and> service_getBlockchainInfo svc (fst r) = Inr (snd r)"
  by (induction ns) (auto split: sum.splits)

lemma resumed_all: "chain_rejections svc ns = [] \<Longrightarrow> map fst (resumed svc ns) = ns"
  by (induction ns) (auto split: sum.splits)

lemma stored_sound:
  "t \<in> set (stored svc rs) \<Longrightarrow>
     (fst t, fst (snd t)) \<in> set rs \<and> service_getWalletInfo svc (fst t) = Inr (snd (snd t))"
  by (induction rs) (auto split: sum.splits)

lemma stored_all: "wallet_rejections svc rs = [] \<Longrightarrow> map fst (stored svc rs) = map fst rs"
  by (induction rs) (auto split: sum.splits)

lemma fold_setInfo_issued:
  "issued (fold (\<lambda>t. setInfo (fst t) (fst (snd t)) (snd (snd t))) ts s) = issued s"
  by (induction ts arbitrary: s) (simp_all add: setInfo_issued)

lemma fold_setInfo_frame:
  "k \<notin> getNetworkBackendId ` fst ` set ts \<Longrightarrow>
     BitcoindModel.nodes (fold (\<lambda>t. setInfo (fst t) (fst (snd t)) (snd (snd t))) ts s) k
       = BitcoindModel.nodes s k"
  by (induction ts arbitrary: s) (simp_all add: setInfo_nodes)

lemma fold_setInfo_refreshed:
  "k \<in> getNetworkBackendId ` fst ` set ts \<Longrightarrow>
     \<exists>t \<in> set ts. getNetworkBackendId (fst t) = k
        \<and> BitcoindModel.nodes (fold (\<lambda>t. setInfo (fst t) (fst (snd t)) (snd (snd t))) ts s) k
            = Some \<lparr>chainInfo = Some (fst (snd t)), walletInfo = Some (snd (snd t))\<rparr>"
proof (induction ts arbitrary: s)
  case Nil
  then show ?case by simp
next
  case (Cons t ts)
  let ?s1 = "setInfo (fst t) (fst (snd t)) (snd (snd t)) s"
  show ?case
  proof (cases "k \<in> getNetworkBackendId ` fst ` set ts")
    case True
    from Cons.IH [OF True, of ?s1] show ?thesis by auto
  next
    case False
    with Cons.prems have kt: "getNetworkBackendId (fst t) = k" by auto
    have "BitcoindModel.nodes (fold (\<lambda>t. setInfo (fst t) (fst (snd t)) (snd (snd t))) ts ?s1) k
            = BitcoindModel.nodes ?s1 k"
      using False by (rule fold_setInfo_frame)
    also have "\<dots> = Some \<lparr>chainInfo = Some (fst (snd t)), walletInfo = Some (snd (snd t))\<rparr>"
      using kt by (simp add: setInfo_nodes)
    finally show ?thesis using kt by auto
  qed
qed

lemma promise_all_getInfo_success:
  assumes "fst (promise_all_getInfo svc ns s) = Inr ()"
  shows "chain_rejections svc ns = [] \<and> wallet_rejections svc (resumed svc ns) = []"
  using assms by (auto simp: promise_all_getInfo_def Let_def split: list.splits)

lemma promise_all_getInfo_issued:
  "issued (snd (promise_all_getInfo svc ns s))
     = issued s @ map GetBlockchainInfo ns @ map (\<lambda>r. GetWalletInfo (fst r)) (resumed svc ns)"
  by (simp add: promise_all_getInfo_def Let_def fold_setInfo_issued)

lemma fold_setInfo_nodes_cong:
  "BitcoindModel.nodes s1 = BitcoindModel.nodes s2 \<Longrightarrow>
     BitcoindModel.nodes (fold (\<lambda>t. setInfo (fst t) (fst (snd t)) (snd (snd t))) ts s1)
       = BitcoindModel.nodes (fold (\<lambda>t. setInfo (fst t) (fst (snd t)) (snd (snd t))) ts s2)"
proof (induction ts arbitrary: s1 s2)
  case Nil
  then show ?case by simp
next
  case (Cons t ts)
  have "BitcoindModel.nodes (setInfo (fst t) (fst (snd t)) (snd (snd t)) s1)
          = BitcoindModel.nodes (setInfo (fst t) (fst (snd t)) (snd (snd t)) s2)"
    using Cons.prems by (intro ext) (simp add: setInfo_nodes)
  from Cons.IH [OF this] show ?case by simp
qed

lemma promise_all_getInfo_nodes:
  "BitcoindModel.nodes (snd (promise_all_getInfo svc ns s))
     = BitcoindModel.nodes (fold (\<lambda>t. setInfo (fst t) (fst (snd t)) (snd (snd t)))
         (stored svc (resumed svc ns)) s)"
proof -
  have "snd (promise_all_getInfo svc ns s)
          = fold (\<lambda>t. setInfo (fst t) (fst (snd t)) (snd (snd t))) (stored svc (resumed svc ns))
              (s\<lparr>issued := issued s @ map GetBlockchainInfo ns
                               @ map (\<lambda>r. GetWalletInfo (fst r)) (resumed svc ns)\<rparr>)"
    by (simp add: promise_all_getInfo_def Let_def)
  then show ?thesis by (simp only:) (rule fold_setInfo_nodes_cong, simp)
qed

lemma stored_nodes_subset: "fst ` set (stored svc (resumed svc ns)) \<subseteq> set ns"
proof
  fix n assume "n \<in> fst ` set (stored svc (resumed svc ns))"
  then obtain t where t: "t \<in> set (stored svc (resumed svc ns))" "n = fst t" by auto
  from stored_sound [OF t(1)] have "(fst t, fst (snd t)) \<in> set (resumed svc ns)" by simp
  from resumed_sound [OF this] t(2) show "n \<in> set ns" by simp
qed

lemma promise_all_getInfo_frame:
  assumes "k \<notin> getNetworkBackendId ` set ns"
  shows "BitcoindModel.nodes (snd (promise_all_getInfo svc ns s)) k = BitcoindModel.nodes s k"
proof -
  from assms stored_nodes_subset [of svc ns]
  have "k \<notin> getNetworkBackendId ` fst ` set (stored svc (resumed svc ns))" by auto
  then show ?thesis unfolding promise_all_getInfo_nodes by (rule fold_setInfo_frame)
qed

lemma promise_all_getInfo_refreshed:
  assumes ok: "fst (promise_all_getInfo svc ns s) = Inr ()"
    and k: "k \<in> getNetworkBackendId ` set ns"
  shows "\<exists>m \<in> set ns. \<exists>ci wi. getNetworkBackendId m = k
        \<and> service_getBlockchainInfo svc m = Inr ci \<and> service_getWalletInfo svc m = Inr wi
        \<and> BitcoindModel.nodes (snd (promise_all_getInfo svc ns s)) k
             = Some \<lparr>chainInfo = Some ci, walletInfo = Some wi\<rparr>"
proof -
  from promise_all_getInfo_success [OF ok]
  have c: "chain_rejections svc ns = []" and w: "wallet_rejections svc (resumed svc ns) = []"
    by simp_all
  have "map fst (stored svc (resumed svc ns)) = ns"
    using stored_all [OF w] resumed_all [OF c] by simp
  then have "fst ` set (stored svc (resumed svc ns)) = set ns"
    by (metis list.set_map)
  with k have "k \<in> getNetworkBackendId ` fst ` set (stored svc (resumed svc ns))" by simp
  from fold_setInfo_refreshed [OF this, of s] obtain t where
    t: "t \<in> set (stored svc (resumed svc ns))" "getNetworkBackendId (fst t) = k"
       "BitcoindModel.nodes (snd (promise_all_getInfo svc ns s)) k
            = Some \<lparr>chainInfo = Some (fst (snd t)), walletInfo = Some (snd (snd t))\<rparr>"
    unfolding promise_all_getInfo_nodes by blast
  from stored_sound [OF t(1)]
  have r: "(fst t, fst (snd t)) \<in> set (resumed svc ns)"
    and wi: "service_getWalletInfo svc (fst t) = Inr (snd (snd t))" by simp_all
  from resumed_sound [OF r]
  have m: "fst t \<in> set ns" and ci: "service_getBlockchainInfo svc (fst t) = Inr (fst (snd t))"
    by simp_all
  from m t(2) ci wi t(3) show ?thesis by blast
qed

lemma promise_all_getInfo_calls:
  assumes ok: "fst (promise_all_getInfo svc ns s) = Inr ()"
  shows "issued (snd (promise_all_getInfo svc ns s))
           = issued s @ map GetBlockchainInfo ns @ map GetWalletInfo ns"
proof -
  from promise_all_getInfo_success [OF ok] have c: "chain_rejections svc ns = []" by simp
  have "map (\<lambda>r. GetWalletInfo (fst r)) (resumed svc ns) = map GetWalletInfo (map fst (resumed svc ns))"
    by simp
  also have "\<dots> = map GetWalletInfo ns" by (simp only: resumed_all [OF c])
  finally show ?thesis by (simp only: promise_all_getInfo_issued)
qed

lemma mine_success:
  assumes "fst (mine svc blocks node state) = Inr ()"
  shows "0 \<le> blocks \<and> (\<exists>network hashes. service_mine svc blocks node = Inr hashes
           \<and> networkById svc (networkId node) = Inr network
           \<and> mine svc blocks node state =
               promise_all_getInfo svc
                 (filter (\<lambda>n. CommonNode.status n = Started) (bitcoin (Network.nodes network)))
                 (record_call (Delay 500) (record_call (ServiceMine blocks node) state)))"
  using assms by (auto simp: mine_def Let_def split: if_splits sum.splits)

lemmas sample_defs = backend1_def backend2_def backend3_def
  network1_def sample_services_def sample_store_def

lemmas eval_defs = getNetworkBackendId_def show_int_def show_nat.simps digit_char_def

text \<open>
  Claim C3. A negative block count makes \<^verbatim>\<open>mine\<close> reject with the error \<^verbatim>\<open>mineError\<close>; no
  call reaches the bitcoind service (the list of issued calls is the one before), and
  the cache of node info is the one before: the store state is returned as it was.
\<close>

theorem mine_negative_rejects:
  assumes "blocks < 0"
  shows "mine svc blocks node state = (Inl (Exception (l ''mineError'')), state)
           \<and> issued (snd (mine svc blocks node state)) = issued state
           \<and> BitcoindModel.nodes (snd (mine svc blocks node state)) = BitcoindModel.nodes state"
  using assms by (simp add: mine_def)

theorem mine_negative_rejects_witness:
  "(- 1 :: int) < 0
     \<and> mine sample_services (- 1) backend1 sample_store
         = (Inl (Exception ''store.models.bitcoind.mineError''), sample_store)
     \<and> issued (snd (mine sample_services (- 1) backend1 sample_store)) = []"
  using mine_negative_rejects [of "- 1" sample_services backend1 sample_store]
  by (simp add: l_def sample_store_def)

text \<open>
  Claim C4. When \<^verbatim>\<open>mine(blocks, node)\<close> succeeds, the block count is not negative and,
  after the mining call and the settle delay, \<^verbatim>\<open>getInfo\<close> has run for the bitcoin nodes
  of the mined-on node's network whose status is Started, and for no other: the calls
  issued after the mining call and the delay are, in some order, the chain-info call and
  the wallet-info call of each started node; the cache entry of every started node
  holds the chain and wallet info the service returned for a started node with that
  cache key; no info call is issued for a node that is not started; every cache entry
  under another key is as before.
\<close>

theorem mine_refreshes_started:
  assumes "fst (mine svc blocks node state) = Inr ()"
  shows "0 \<le> blocks \<and> (\<exists>network. networkById svc (networkId node) = Inr network \<and>
     (let started = filter (\<lambda>n. CommonNode.status n = Started) (bitcoin (Network.nodes network));
          state' = snd (mine svc blocks node state)
      in (\<exists>calls. issued state' = issued state @ [ServiceMine blocks node, Delay 500] @ calls
             \<and> mset calls = mset (map GetBlockchainInfo started) + mset (map GetWalletInfo started))
         \<and> (\<forall>n \<in> set (bitcoin (Network.nodes network)). CommonNode.status n = Started \<longrightarrow>
               (\<exists>m \<in> set started. \<exists>ci wi. getNetworkBackendId m = getNetworkBackendId n
                  \<and> service_getBlockchainInfo svc m = Inr ci \<and> service_getWalletInfo svc m = Inr wi
                  \<and> BitcoindModel.nodes state' (getNetworkBackendId n)
                       = Some \<lparr>chainInfo = Some ci, walletInfo = Some wi\<rparr>))
         \<and> (\<forall>n \<in> set (bitcoin (Network.nodes network)). CommonNode.status n \<noteq> Started \<longrightarrow>
               GetBlockchainInfo n \<notin> set (drop (length (issued state)) (issued state'))
               \<and> GetWalletInfo n \<notin> set (drop (length (issued state)) (issued state')))
         \<and> (\<forall>k. k \<notin> getNetworkBackendId ` set started \<longrightarrow>
               BitcoindModel.nodes state' k = BitcoindModel.nodes state k)))"
proof -
  from mine_success [OF assms] obtain network where
    nn: "0 \<le> blocks" and net: "networkById svc (networkId node) = Inr network"
    and run: "mine svc blocks node state =
               promise_all_getInfo svc
                 (filter (\<lambda>n. CommonNode.status n = Started) (bitcoin (Network.nodes network)))
                 (record_call (Delay 500) (record_call (ServiceMine blocks node) state))"
    by blast
  let ?started = "filter (\<lambda>n. CommonNode.status n = Started) (bitcoin (Network.nodes network))"
  let ?s2 = "record_call (Delay 500) (record_call (ServiceMine blocks node) state)"
  let ?state' = "snd (mine svc blocks node state)"
  let ?calls = "map GetBlockchainInfo ?started @ map GetWalletInfo ?started"
  have ok: "fst (promise_all_getInfo svc ?started ?s2) = Inr ()"
    using assms by (simp only: run)
  have s2_issued: "issued ?s2 = issued state @ [ServiceMine blocks node, Delay 500]"
    by (simp add: record_call_def)
  have s2_nodes: "BitcoindModel.nodes ?s2 = BitcoindModel.nodes state"
    by (simp add: record_call_def)
  have log: "issued ?state' = issued state @ [ServiceMine blocks node, Delay 500] @ ?calls"
    using promise_all_getInfo_calls [OF ok] by (simp only: run s2_issued append_assoc)
  have calls: "\<exists>calls. issued ?state' = issued state @ [ServiceMine blocks node, Delay 500] @ calls
             \<and> mset calls = mset (map GetBlockchainInfo ?started) + mset (map GetWalletInfo ?started)"
    using log by (intro exI [of _ ?calls]) simp
  have refreshed: "\<forall>n \<in> set (bitcoin (Network.nodes network)). CommonNode.status n = Started \<longrightarrow>
               (\<exists>m \<in> set ?started. \<exists>ci wi. getNetworkBackendId m = getNetworkBackendId n
                  \<and> service_getBlockchainInfo svc m = Inr ci \<and> service_getWalletInfo svc m = Inr wi
                  \<and> BitcoindModel.nodes ?state' (getNetworkBackendId n)
                       = Some \<lparr>chainInfo = Some ci, walletInfo = Some wi\<rparr>)"
  proof (intro ballI impI)
    fix n assume "n \<in> set (bitcoin (Network.nodes network))" "CommonNode.status n = Started"
    then have "getNetworkBackendId n \<in> getNetworkBackendId ` set ?started" by simp
    from promise_all_getInfo_refreshed [OF ok this] show
      "\<exists>m \<in> set ?started. \<exists>ci wi. getNetworkBackendId m = getNetworkBackendId n
                  \<and> service_getBlockchainInfo svc m = Inr ci \<and> service_getWalletInfo svc m = Inr wi
                  \<and> BitcoindModel.nodes ?state' (getNetworkBackendId n)
                       = Some \<lparr>chainInfo = Some ci, walletInfo = Some wi\<rparr>"
      by (simp only: run)
  qed
  have tail: "drop (length (issued state)) (issued ?state')
                = [ServiceMine blocks node, Delay 500] @ ?calls"
    by (simp only: log append_eq_conv_conj drop_append length_append) simp
  have skipped: "\<forall>n \<in> set (bitcoin (Network.nodes network)). CommonNode.status n \<noteq> Started \<longrightarrow>
               GetBlockchainInfo n \<notin> set (drop (length (issued state)) (issued ?state'))
               \<and> GetWalletInfo n \<notin> set (drop (length (issued state)) (issued ?state'))"
  proof (intro ballI impI)
    fix n assume "n \<in> set (bitcoin (Network.nodes network))" "CommonNode.status n \<noteq> Started"
    then have "n \<notin> set ?started" by simp
    then show "GetBlockchainInfo n \<notin> set (drop (length (issued state)) (issued ?state'))
               \<and> GetWalletInfo n \<notin> set (drop (length (issued state)) (issued ?state'))"
      unfolding tail by auto
  qed
  have frame: "\<forall>k. k \<notin> getNetworkBackendId ` set ?started \<longrightarrow>
               BitcoindModel.nodes ?state' k = BitcoindModel.nodes state k"
  proof (intro allI impI)
    fix k assume "k \<notin> getNetworkBackendId ` set ?started"
    then have "BitcoindModel.nodes (snd (promise_all_getInfo svc ?started ?s2)) k = BitcoindModel.nodes ?s2 k"
      by (rule promise_all_getInfo_frame)
    then show "BitcoindModel.nodes ?state' k = BitcoindModel.nodes state k"
      by (simp only: run s2_nodes)
  qed
  show ?thesis
    unfolding Let_def
    by (rule conjI [OF nn], rule exI [of _ network], intro conjI, rule net, rule calls,
        rule refreshed, rule skipped, rule frame)
qed

theorem mine_refreshes_started_witness:
  "fst (mine sample_services 6 backend1 sample_store) = Inr ()
     \<and> (\<exists>calls. issued (snd (mine sample_services 6 backend1 sample_store))
                  = [ServiceMine 6 backend1, Delay 500] @ calls
          \<and> mset calls = {#GetBlockchainInfo backend1, GetBlockchainInfo backend2,
                            GetWalletInfo backend1, GetWalletInfo backend2#})
     \<and> BitcoindModel.nodes (snd (mine sample_services 6 backend1 sample_store)) ''1-backend2''
         = Some \<lparr>chainInfo = Some \<lparr>chain_blocks = 107\<rparr>, walletInfo = Some \<lparr>balance = 50\<rparr>\<rparr>
     \<and> BitcoindModel.nodes (snd (mine sample_services 6 backend1 sample_store)) ''1-backend3''
         = Some \<lparr>chainInfo = Some \<lparr>chain_blocks = 100\<rparr>, walletInfo = None\<rparr>"
proof -
  have h: "fst (mine sample_services 6 backend1 sample_store) = Inr ()"
    by (simp add: mine_def promise_all_getInfo_def record_call_def Let_def sample_defs)
  have net: "networkById sample_services (networkId backend1) = Inr network1"
    by (simp add: sample_services_def backend1_def)
  have started: "filter (\<lambda>n. CommonNode.status n = Started) (bitcoin (Network.nodes network1))
                   = [backend1, backend2]"
    by (simp add: sample_defs)
  have k2: "getNetworkBackendId backend2 = ''1-backend2''"
    by (simp add: backend2_def eval_defs)
  have k1: "getNetworkBackendId backend1 = ''1-backend1''"
    by (simp add: backend1_def eval_defs)
  have s2: "service_getBlockchainInfo sample_services = (\<lambda>node. Inr \<lparr>chain_blocks = 107\<rparr>)"
     "service_getWalletInfo sample_services = (\<lambda>node. Inr \<lparr>balance = 50\<rparr>)"
    by (simp_all add: sample_services_def)
  have old: "BitcoindModel.nodes sample_store ''1-backend3''
               = Some \<lparr>chainInfo = Some \<lparr>chain_blocks = 100\<rparr>, walletInfo = None\<rparr>"
    by (simp add: sample_store_def)
  have st2: "CommonNode.status backend2 = Started" "backend2 \<in> set (bitcoin (Network.nodes network1))"
    by (simp_all add: sample_defs)
  from mine_refreshes_started [OF h] obtain network where
    n: "networkById sample_services (networkId backend1) = Inr network" and
    P: "let started = filter (\<lambda>n. CommonNode.status n = Started) (bitcoin (Network.nodes network));
            state' = snd (mine sample_services 6 backend1 sample_store)
        in (\<exists>calls. issued state' = issued sample_store @ [ServiceMine 6 backend1, Delay 500] @ calls
             \<and> mset calls = mset (map GetBlockchainInfo started) + mset (map GetWalletInfo started))
         \<and> (\<forall>n \<in> set (bitcoin (Network.nodes network)). CommonNode.status n = Started \<longrightarrow>
               (\<exists>m \<in> set started. \<exists>ci wi. getNetworkBackendId m = getNetworkBackendId n
                  \<and> service_getBlockchainInfo sample_services m = Inr ci
                  \<and> service_getWalletInfo sample_services m = Inr wi
                  \<and> BitcoindModel.nodes state' (getNetworkBackendId n)
                       = Some \<lparr>chainInfo = Some ci, walletInfo = Some wi\<rparr>))
         \<and> (\<forall>n \<in> set (bitcoin (Network.nodes network)). CommonNode.status n \<noteq> Started \<longrightarrow>
               GetBlockchainInfo n \<notin> set (drop (length (issued sample_store)) (issued state'))
               \<and> GetWalletInfo n \<notin> set (drop (length (issued sample_store)) (issued state')))
         \<and> (\<forall>k. k \<notin> getNetworkBackendId ` set started \<longrightarrow>
               BitcoindModel.nodes state' k = BitcoindModel.nodes sample_store k)"
    by blast
  from n net have eq: "network = network1" by simp
  note P' = P [unfolded Let_def eq started]
  note a = P' [THEN conjunct1]
  note b = P' [THEN conjunct2, THEN conjunct1, rule_format, OF st2(2) st2(1)]
  note c = P' [THEN conjunct2, THEN conjunct2, THEN conjunct2, rule_format, of "''1-backend3''"]
  from a obtain calls where
    calls: "issued (snd (mine sample_services 6 backend1 sample_store))
              = issued sample_store @ [ServiceMine 6 backend1, Delay 500] @ calls"
      "mset calls = mset (map GetBlockchainInfo [backend1, backend2])
                     + mset (map GetWalletInfo [backend1, backend2])"
    by blast
  have 1: "\<exists>calls. issued (snd (mine sample_services 6 backend1 sample_store))
                  = [ServiceMine 6 backend1, Delay 500] @ calls
          \<and> mset calls = {#GetBlockchainInfo backend1, GetBlockchainInfo backend2,
                            GetWalletInfo backend1, GetWalletInfo backend2#}"
    using calls by (intro exI [of _ calls]) (simp add: sample_store_def)
  from b have 2: "BitcoindModel.nodes (snd (mine sample_services 6 backend1 sample_store)) ''1-backend2''
         = Some \<lparr>chainInfo = Some \<lparr>chain_blocks = 107\<rparr>, walletInfo = Some \<lparr>balance = 50\<rparr>\<rparr>"
    unfolding s2 k2 by auto
  from c have 3: "BitcoindModel.nodes (snd (mine sample_services 6 backend1 sample_store)) ''1-backend3''
         = Some \<lparr>chainInfo = Some \<lparr>chain_blocks = 100\<rparr>, walletInfo = None\<rparr>"
    by (simp add: k1 k2 old)
  from h 1 2 3 show ?thesis by simp
qed

text \<open>
  Claim C10. The cache is keyed by the composite of network id and node name: \<^verbatim>\<open>setInfo\<close>
  stores a node's info under \<^verbatim>\<open>getNetworkBackendId\<close>, and two nodes have the same key
  exactly when they agree on network id and on name. \<^verbatim>\<open>removeNode(node)\<close> deletes the
  entry under the node's key and leaves every entry under another key as it was, so the
  entry of any node that differs in network id or in name is unchanged, a node of the
  same name in another network included.
\<close>

theorem removeNode_frame:
  "BitcoindModel.nodes (setInfo node ci wi state) (getNetworkBackendId node)
       = Some \<lparr>chainInfo = Some ci, walletInfo = Some wi\<rparr>
   \<and> (getNetworkBackendId node = getNetworkBackendId other
        \<longleftrightarrow> networkId node = networkId other \<and> CommonNode.name node = CommonNode.name other)
   \<and> BitcoindModel.nodes (removeNode node state) (getNetworkBackendId node) = None
   \<and> (\<forall>k. k \<noteq> getNetworkBackendId node \<longrightarrow>
          BitcoindModel.nodes (removeNode node state) k = BitcoindModel.nodes state k)
   \<and> (networkId other \<noteq> networkId node \<or> CommonNode.name other \<noteq> CommonNode.name node \<longrightarrow>
          BitcoindModel.nodes (removeNode node state) (getNetworkBackendId other)
            = BitcoindModel.nodes state (getNetworkBackendId other))
   \<and> issued (removeNode node state) = issued state"
  using getNetworkBackendId_inj [of node other] getNetworkBackendId_inj [of other node]
  by (auto simp: setInfo_nodes removeNode_def)

theorem removeNode_frame_witness:
  "getNetworkBackendId backend1 = ''1-backend1''
   \<and> getNetworkBackendId backend1_of_network2 = ''2-backend1''
   \<and> BitcoindModel.nodes (removeNode backend1 sample_store) ''1-backend1'' = None
   \<and> BitcoindModel.nodes (removeNode backend1 sample_store) ''2-backend1''
        = Some \<lparr>chainInfo = Some \<lparr>chain_blocks = 7\<rparr>, walletInfo = Some \<lparr>balance = 0\<rparr>\<rparr>
   \<and> BitcoindModel.nodes (removeNode backend1 sample_store) ''1-backend3''
        = BitcoindModel.nodes sample_store ''1-backend3''"
proof -
  have k1: "getNetworkBackendId backend1 = ''1-backend1''"
    by (simp add: backend1_def eval_defs)
  have k2: "getNetworkBackendId backend1_of_network2 = ''2-backend1''"
    by (simp add: backend1_of_network2_def backend1_def eval_defs)
  have d: "networkId backend1_of_network2 \<noteq> networkId backend1"
    by (simp add: backend1_of_network2_def backend1_def)
  have old: "BitcoindModel.nodes sample_store ''2-backend1''
               = Some \<lparr>chainInfo = Some \<lparr>chain_blocks = 7\<rparr>, walletInfo = Some \<lparr>balance = 0\<rparr>\<rparr>"
    by (simp add: sample_store_def)
  from removeNode_frame [of backend1 _ _ sample_store backend1_of_network2] d k1 k2 old
  show ?thesis by simp
qed

section \<open>Properties of the docker service\<close>

subsection \<open>Running compose commands\<close>

text \<open>
  Claim C7, as amended. When the compose command succeeds, \<^verbatim>\<open>execute\<close> returns its result
  with the colour codes stripped from both the standard-output and the standard-error
  text. When it fails, the colour codes are stripped from the standard-error text of the
  failure only; the error thrown is a single error whose message is that stripped text
  or, when that text is empty, the JSON serialization of the failure, in which the
  standard-output text stands as the command gave it.
\<close>

theorem execute_strips:
  "(\<forall>result. outcome = Inr result \<longrightarrow>
       execute outcome = Inr (result\<lparr>out := stripAnsi (out result), err := stripAnsi (err result)\<rparr>))
   \<and> (\<forall>e. outcome = Inl e \<longrightarrow>
         (\<exists>msg. execute outcome = Inl (Exception msg)
            \<and> (stripAnsi (err e) \<noteq> [] \<longrightarrow> msg = stripAnsi (err e))
            \<and> (stripAnsi (err e) = [] \<longrightarrow>
                  msg = ''{'' @ json_string ''exitCode'' @ '':''
                          @ (case exitCode e of None \<Rightarrow> ''null'' | Some n \<Rightarrow> show_int n)
                          @ '','' @ json_string ''err'' @ '':'' @ json_string []
                          @ '','' @ json_string ''out'' @ '':'' @ json_string (out e) @ ''}'')))"
proof (cases outcome)
  case (Inl e)
  show ?thesis
  proof (cases "stripAnsi (err e) = []")
    case True
    with Inl show ?thesis by (simp add: execute_def Let_def JSON_stringify_def)
  next
    case False
    with Inl show ?thesis by (simp add: execute_def Let_def)
  qed
next
  case (Inr result)
  then show ?thesis by (simp add: execute_def Let_def)
qed

theorem execute_strips_witness:
  "execute (Inr \<lparr>exitCode = Some 0, err = [ESC] @ ''[33mwarning'', out = [ESC] @ ''[32mdone''\<rparr>)
      = Inr \<lparr>exitCode = Some 0, err = ''warning'', out = ''done''\<rparr>
   \<and> execute (Inl failed_with_error) = Inl (Exception ''No such service: bob'')"
proof -
  have s: "stripAnsi (err failed_with_error) = ''No such service: bob''"
    by (simp add: failed_with_error_def ESC_def)
  from execute_strips [of "Inr \<lparr>exitCode = Some 0, err = [ESC] @ ''[33mwarning'', out = [ESC] @ ''[32mdone''\<rparr>"]
  have a: "execute (Inr \<lparr>exitCode = Some 0, err = [ESC] @ ''[33mwarning'', out = [ESC] @ ''[32mdone''\<rparr>)
      = Inr \<lparr>exitCode = Some 0, err = ''warning'', out = ''done''\<rparr>"
    by (simp add: ESC_def)
  from execute_strips [of "Inl failed_with_error"] s
  have b: "execute (Inl failed_with_error) = Inl (Exception ''No such service: bob'')"
    by auto
  from a b show ?thesis by simp
qed

text \<open>
  The claim as stated fails for a command that fails with an empty standard-error text
  and a coloured standard-output text: the message of the error thrown is the
  serialization of the failure, and it carries the colour codes of the output.
\<close>

theorem execute_strips_counterexample:
  "execute (Inl failed_with_output)
      = Inl (Exception (''{'' @ [CHR 0x22] @ ''exitCode'' @ [CHR 0x22] @ '':1,''
                          @ [CHR 0x22] @ ''err'' @ [CHR 0x22] @ '':'' @ [CHR 0x22, CHR 0x22] @ '',''
                          @ [CHR 0x22] @ ''out'' @ [CHR 0x22] @ '':''
                          @ [CHR 0x22, CHR 0x5C] @ ''u001b[31mboom'' @ [CHR 0x5C] @ ''u001b[0m'' @ [CHR 0x22]
                          @ ''}''))
   \<and> stripAnsi (out failed_with_output) = ''boom''
   \<and> out failed_with_output \<noteq> stripAnsi (out failed_with_output)"
  by (simp add: execute_def Let_def failed_with_output_def ESC_def JSON_stringify_def json_string_def
        json_char_def hex_digit_def show_int_def show_nat.simps digit_char_def)

lemma ensureDir_trace: "snd (ensureDir h dir tr) = tr @ [EnsureDir dir]"
  by (simp add: ensureDir_def split: option.splits)

lemma ensureDirs_trace:
  "\<exists>ds. snd (ensureDirs h network ns tr) = tr @ ds \<and> (\<forall>c \<in> set ds. is_EnsureDir c)"
proof (induction ns arbitrary: tr)
  case Nil
  show ?case by simp
next
  case (Cons node rest)
  let ?dir = "nodePath network (implementation node) (CommonNode.name node)"
  let ?t1 = "tr @ [EnsureDir ?dir]"
  let ?t2 = "?t1 @ [EnsureDir (join ?dir (clightning_dataDir h))]"
  let ?t3 = "?t2 @ [EnsureDir (join ?dir (clightning_apiDir h))]"
  from Cons [of ?t1] obtain d1 where
    d1: "snd (ensureDirs h network rest ?t1) = ?t1 @ d1" "\<forall>c \<in> set d1. is_EnsureDir c" by blast
  from Cons [of ?t3] obtain d3 where
    d3: "snd (ensureDirs h network rest ?t3) = ?t3 @ d3" "\<forall>c \<in> set d3. is_EnsureDir c" by blast
  have "snd (ensureDirs h network (node # rest) tr) \<in>
          {?t1, ?t2, ?t3, ?t1 @ d1, ?t3 @ d3}"
    using d1(1) d3(1)
    by (auto simp: Let_def ensureDir_def split: option.splits)
  then consider "snd (ensureDirs h network (node # rest) tr) = tr @ [EnsureDir ?dir]"
    | "snd (ensureDirs h network (node # rest) tr)
         = tr @ [EnsureDir ?dir, EnsureDir (join ?dir (clightning_dataDir h))]"
    | "snd (ensureDirs h network (node # rest) tr)
         = tr @ [EnsureDir ?dir, EnsureDir (join ?dir (clightning_dataDir h)),
                 EnsureDir (join ?dir (clightning_apiDir h))]"
    | "snd (ensureDirs h network (node # rest) tr) = tr @ (EnsureDir ?dir # d1)"
    | "snd (ensureDirs h network (node # rest) tr)
         = tr @ ([EnsureDir ?dir, EnsureDir (join ?dir (clightning_dataDir h)),
                 EnsureDir (join ?dir (clightning_apiDir h))] @ d3)"
    by auto
  then show ?case
  proof cases
    case 1
    then show ?thesis by (intro exI [of _ "[EnsureDir ?dir]"]) (simp add: is_EnsureDir_def)
  next
    case 2
    then show ?thesis
      by (intro exI [of _ "[EnsureDir ?dir, EnsureDir (join ?dir (clightning_dataDir h))]"])
         (simp add: is_EnsureDir_def)
  next
    case 3
    then show ?thesis
      by (intro exI [of _ "[EnsureDir ?dir, EnsureDir (join ?dir (clightning_dataDir h)),
                 EnsureDir (join ?dir (clightning_apiDir h))]"])
         (simp add: is_EnsureDir_def)
  next
    case 4
    with d1(2) show ?thesis
      by (intro exI [of _ "EnsureDir ?dir # d1"]) (simp add: is_EnsureDir_def)
  next
    case 5
    with d3(2) show ?thesis
      by (intro exI [of _ "[EnsureDir ?dir, EnsureDir (join ?dir (clightning_dataDir h)),
                 EnsureDir (join ?dir (clightning_apiDir h))] @ d3"]) (simp add: is_EnsureDir_def)
  qed
qed

lemma stopNode_trace:
  "snd (stopNode h network node tr) = tr @ [Compose (StopOne (CommonNode.name node)) (path network)]"
  by (simp add: stopNode_def compose_call_def split: sum.splits)

text \<open>
  Claim C6. Whatever the host answers and whatever was issued before, the effects
  \<^verbatim>\<open>startNode(network, node)\<close> adds are the creation of the node's directories, then the
  stop of the node's service, then its start. If creating a directory fails nothing
  else is issued; otherwise the stop is issued, and the start is issued only after it
  and only when the stop succeeded. So the start command of a node is never issued
  without the stop command of that node right before it.
\<close>

theorem startNode_stops_first:
  "\<exists>ds. (\<forall>c \<in> set ds. is_EnsureDir c)
     \<and> (let stop_cmd = Compose (StopOne (CommonNode.name node)) (path network);
             up_cmd = Compose (UpOne (CommonNode.name node)) (path network);
             result = fst (startNode h network node tr);
             tr' = snd (startNode h network node tr)
         in (tr' = tr @ ds \<and> result \<noteq> Inr () \<and> fst (ensureDirs h network [node] tr) \<noteq> Inr ())
            \<or> (tr' = tr @ ds @ [stop_cmd] \<and> result \<noteq> Inr ())
            \<or> (tr' = tr @ ds @ [stop_cmd, up_cmd]
                 \<and> fst (stopNode h network node (tr @ ds)) = Inr ()))"
proof -
  from ensureDirs_trace [of h network "[node]" tr] obtain ds where
    ds: "snd (ensureDirs h network [node] tr) = tr @ ds" "\<forall>c \<in> set ds. is_EnsureDir c" by blast
  let ?stop = "Compose (StopOne (CommonNode.name node)) (path network)"
  let ?up = "Compose (UpOne (CommonNode.name node)) (path network)"
  show ?thesis
  proof (cases "ensureDirs h network [node] tr")
    case (Pair r1 t1)
    with ds(1) have t1: "t1 = tr @ ds" by simp
    show ?thesis
    proof (cases r1)
      case (Inl e)
      with Pair t1 have "snd (startNode h network node tr) = tr @ ds"
        "fst (startNode h network node tr) \<noteq> Inr ()" "fst (ensureDirs h network [node] tr) \<noteq> Inr ()"
        by (simp_all add: startNode_def)
      with ds(2) show ?thesis unfolding Let_def by (intro exI [of _ ds]) simp
    next
      case (Inr u)
      note r1 = this
      show ?thesis
      proof (cases "stopNode h network node (tr @ ds)")
        case (Pair r2 t2)
        with stopNode_trace [of h network node "tr @ ds"] have t2: "t2 = tr @ ds @ [?stop]" by simp
        note stop = Pair
        show ?thesis
        proof (cases r2)
          case (Inl e)
          with \<open>ensureDirs h network [node] tr = (r1, t1)\<close> r1 t1 stop t2
          have "snd (startNode h network node tr) = tr @ ds @ [?stop]"
            "fst (startNode h network node tr) \<noteq> Inr ()"
            by (simp_all add: startNode_def)
          with ds(2) show ?thesis unfolding Let_def by (intro exI [of _ ds]) simp
        next
          case (Inr u2)
          with \<open>ensureDirs h network [node] tr = (r1, t1)\<close> r1 t1 stop t2
          have "snd (startNode h network node tr) = tr @ ds @ [?stop, ?up]"
            "fst (stopNode h network node (tr @ ds)) = Inr ()"
            by (simp_all add: startNode_def compose_call_def split: sum.splits)
          with ds(2) show ?thesis unfolding Let_def by (intro exI [of _ ds]) simp
        qed
      qed
    qed
  qed
qed

theorem startNode_stops_first_witness:
  "startNode sample_host network1 (CommonNode.truncate bob) []
     = (Inr (), [EnsureDir ''/polar/networks/1/c-lightning/bob'',
                 EnsureDir ''/polar/networks/1/c-lightning/bob/lightningd'',
                 EnsureDir ''/polar/networks/1/c-lightning/bob/rest-api'',
                 Compose (StopOne ''bob'') ''/polar/networks/1'',
                 Compose (UpOne ''bob'') ''/polar/networks/1''])
   \<and> startNode wedged_host network1 (CommonNode.truncate bob) []
     = (Inl (Exception ''No such service: bob''),
                [EnsureDir ''/polar/networks/1/c-lightning/bob'',
                 EnsureDir ''/polar/networks/1/c-lightning/bob/lightningd'',
                 EnsureDir ''/polar/networks/1/c-lightning/bob/rest-api'',
                 Compose (StopOne ''bob'') ''/polar/networks/1''])"
  using startNode_stops_first [of "CommonNode.truncate bob" network1 sample_host "[]"]
  by (simp add: startNode_def stopNode_def compose_call_def execute_def ensureDir_def nodePath_def
        join_def Let_def sample_host_def wedged_host_def failed_with_error_def network1_def bob_def
        CommonNode.truncate_def ESC_def)

subsection \<open>Listing the pulled images\<close>

lemma indexOf_nonneg: "x \<in> set ys \<Longrightarrow> 0 \<le> indexOf ys x"
  by (induction ys) (auto simp: Let_def)

lemma indexOf_at_first:
  "indexOf (pre @ x # xs) x = int (length pre) \<longleftrightarrow> x \<notin> set pre"
proof (induction pre)
  case Nil
  show ?case by simp
next
  case (Cons y pre)
  have "0 \<le> indexOf (pre @ x # xs) x" by (rule indexOf_nonneg) simp
  with Cons show ?case by (auto simp: Let_def)
qed

lemma filter_indexed_firsts:
  "ys = pre @ xs \<Longrightarrow>
     set (filter_indexed (\<lambda>x i. indexOf ys x = i) (int (length pre)) xs) = set xs - set pre
     \<and> distinct (filter_indexed (\<lambda>x i. indexOf ys x = i) (int (length pre)) xs)"
proof (induction xs arbitrary: pre)
  case Nil
  show ?case by simp
next
  case (Cons x xs)
  from Cons.prems have ys: "ys = (pre @ [x]) @ xs" by simp
  have idx: "int (length pre) + 1 = int (length (pre @ [x]))" by simp
  note IH = Cons.IH [OF ys, folded idx]
  have here: "indexOf ys x = int (length pre) \<longleftrightarrow> x \<notin> set pre"
    unfolding Cons.prems by (rule indexOf_at_first)
  show ?case
  proof (cases "x \<in> set pre")
    case True
    with here IH show ?thesis by auto
  next
    case False
    with here IH show ?thesis by auto
  qed
qed

text \<open>
  Claim C8. \<^verbatim>\<open>getImages\<close> returns a list for every outcome of the image listing: the empty
  list when the listing fails, and otherwise the repo tags of the listed images without
  duplicates and without the untagged sentinel \<^verbatim>\<open><none>:<none>\<close>.
\<close>

theorem getImages_total:
  "getImages (Inl e) = []
   \<and> distinct (getImages (Inr allImages))
   \<and> set (getImages (Inr allImages))
        = (\<Union>i \<in> set allImages. case RepoTags i of Some tags \<Rightarrow> set tags | None \<Rightarrow> {})
            - {''<none>:<none>''}"
proof -
  let ?names = "filter (\<lambda>n. n \<noteq> ''<none>:<none>'')
                   (concat (map (\<lambda>i. case RepoTags i of Some tags \<Rightarrow> tags | None \<Rightarrow> []) allImages))"
  have g: "getImages (Inr allImages) = filter_indexed (\<lambda>image index. indexOf ?names image = index) 0 ?names"
    by (simp add: getImages_def getImages_try_def Let_def)
  from filter_indexed_firsts [of ?names "[]" ?names]
  have d: "distinct (getImages (Inr allImages))" and s: "set (getImages (Inr allImages)) = set ?names"
    by (simp_all add: g)
  have t: "set (case RepoTags i of Some tags \<Rightarrow> tags | None \<Rightarrow> [])
              = (case RepoTags i of Some tags \<Rightarrow> set tags | None \<Rightarrow> {})" for i :: ImageInfo
    by (cases "RepoTags i") simp_all
  have "set ?names = (\<Union>i \<in> set allImages. case RepoTags i of Some tags \<Rightarrow> set tags | None \<Rightarrow> {})
            - {''<none>:<none>''}"
    by (auto simp: t)
  with d s show ?thesis by (simp add: getImages_def getImages_try_def)
qed

theorem getImages_total_witness:
  "getImages (Inl (Exception ''connect ENOENT /var/run/docker.sock'')) = []
   \<and> getImages (Inr sample_images)
        = [''polarlightning/lnd:0.9.1-beta'', ''polarlightning/bitcoind:0.19.0.1'']
   \<and> distinct (getImages (Inr sample_images))"
proof -
  have v: "getImages (Inr sample_images)
        = [''polarlightning/lnd:0.9.1-beta'', ''polarlightning/bitcoind:0.19.0.1'']"
    by (simp add: getImages_def getImages_try_def sample_images_def Let_def)
  from getImages_total [of "Exception ''connect ENOENT /var/run/docker.sock''" sample_images] v
  show ?thesis by simp
qed

subsection \<open>The compose file\<close>

lemma set_service_keys:
  "k \<notin> set (map fst (services cf)) \<Longrightarrow>
     map fst (services (set_service k v cf)) = map fst (services cf) @ [k]"
  by (simp add: set_service_def update_keys)

lemma set_service_lookup:
  "map_of (services (set_service k v cf)) = (map_of (services cf))(k \<mapsto> v)"
  by (simp add: set_service_def update_conv')

lemma forEach_set_service:
  assumes "\<forall>x \<in> set xs. \<forall>cf. f x cf = Inr (set_service (key x) (val x) cf)"
    and "distinct (map key xs)"
    and "set (map key xs) \<inter> set (map fst (services cf)) = {}"
  shows "\<exists>cf'. forEach f xs cf = Inr cf'
           \<and> map fst (services cf') = map fst (services cf) @ map key xs
           \<and> (\<forall>k. k \<notin> set (map key xs) \<longrightarrow> map_of (services cf') k = map_of (services cf) k)
           \<and> (\<forall>x \<in> set xs. map_of (services cf') (key x) = Some (val x))"
  using assms
proof (induction xs arbitrary: cf)
  case Nil
  then show ?case by simp
next
  case (Cons x xs)
  let ?f1 = "set_service (key x) (val x) cf"
  from Cons.prems(1) have step: "f x cf = Inr ?f1" by simp
  from Cons.prems(3) have fresh: "key x \<notin> set (map fst (services cf))" by auto
  have keys1: "map fst (services ?f1) = map fst (services cf) @ [key x]"
    using fresh by (rule set_service_keys)
  have p1: "\<forall>y \<in> set xs. \<forall>cf. f y cf = Inr (set_service (key y) (val y) cf)"
    using Cons.prems(1) by simp
  have p2: "distinct (map key xs)" and notin: "key x \<notin> set (map key xs)"
    using Cons.prems(2) by simp_all
  have p3: "set (map key xs) \<inter> set (map fst (services ?f1)) = {}"
    using Cons.prems(3) notin unfolding keys1 by auto
  from Cons.IH [OF p1 p2 p3] obtain cf' where
    r: "forEach f xs ?f1 = Inr cf'"
    and k: "map fst (services cf') = map fst (services ?f1) @ map key xs"
    and fr: "\<forall>k. k \<notin> set (map key xs) \<longrightarrow> map_of (services cf') k = map_of (services ?f1) k"
    and v: "\<forall>y \<in> set xs. map_of (services cf') (key y) = Some (val y)"
    by blast
  have 1: "forEach f (x # xs) cf = Inr cf'" using step r by simp
  have 2: "map fst (services cf') = map fst (services cf) @ map key (x # xs)"
    using k keys1 by simp
  have 3: "\<forall>k. k \<notin> set (map key (x # xs)) \<longrightarrow> map_of (services cf') k = map_of (services cf) k"
    using fr by (simp add: set_service_lookup)
  have "map_of (services cf') (key x) = Some (val x)"
    using fr notin by (simp add: set_service_lookup)
  with v have 4: "\<forall>y \<in> set (x # xs). map_of (services cf') (key y) = Some (val y)" by simp
  from 1 2 3 4 show ?case by blast
qed

lemma resolveBackend_nonempty:
  "bs \<noteq> [] \<Longrightarrow> \<exists>b \<in> set bs. resolveBackend bs nm = Some b"
  by (cases bs) (auto simp: resolveBackend_def find_Some_iff split: option.splits)

lemma resolveBackend_fallback:
  assumes "\<forall>n \<in> set (b # rest). CommonNode.name n \<noteq> nm"
  shows "resolveBackend (b # rest) nm = Some b"
proof -
  from assms have "find (\<lambda>n. CommonNode.name n = nm) (b # rest) = None"
    unfolding find_None_iff by blast
  then show ?thesis unfolding resolveBackend_def by simp
qed

lemma lightning_callback_handled:
  assumes "implementation node \<in> {''LND'', ''c-lightning'', ''eclair''}"
    and "resolveBackend bs (backendName node) = Some b"
  shows "lightning_callback bs node cf
           = Inr (set_service (CommonNode.name node) (lightning_service node b) cf)"
  using assms
  by (auto simp: lightning_callback_def addLnd_def addClightning_def addEclair_def add_lightning_def)

lemma lightning_callback_succeeds:
  assumes "bs \<noteq> []"
  shows "\<exists>cf'. lightning_callback bs node cf = Inr cf'"
proof -
  from resolveBackend_nonempty [OF assms] obtain b where "resolveBackend bs (backendName node) = Some b"
    by blast
  then show ?thesis
    by (simp add: lightning_callback_def addLnd_def addClightning_def addEclair_def add_lightning_def)
qed

lemma forEach_succeeds:
  "(\<And>x cf. \<exists>cf'. f x cf = Inr cf') \<Longrightarrow> \<exists>cf'. forEach f xs cf = Inr cf'"
proof (induction xs arbitrary: cf)
  case Nil
  show ?case by simp
next
  case (Cons x xs)
  from Cons.prems [of x cf] obtain f1 where "f x cf = Inr f1" by blast
  moreover from Cons.IH [OF Cons.prems, of f1] obtain f2 where "forEach f xs f1 = Inr f2" by blast
  ultimately show ?case by simp
qed

lemma compose_content_succeeds:
  assumes "bitcoin (Network.nodes network) \<noteq> []"
  shows "\<exists>doc. compose_content network = Inr doc"
proof -
  have "\<exists>f1. forEach addBitcoind (bitcoin (Network.nodes network)) new_ComposeFile = Inr f1"
    by (rule forEach_succeeds) (simp add: addBitcoind_def)
  then obtain f1 where f1: "forEach addBitcoind (bitcoin (Network.nodes network)) new_ComposeFile = Inr f1"
    by blast
  have "\<exists>doc. forEach (lightning_callback (bitcoin (Network.nodes network)))
            (lightning (Network.nodes network)) f1 = Inr doc"
    by (rule forEach_succeeds) (rule lightning_callback_succeeds [OF assms])
  with f1 show ?thesis by (simp add: compose_content_def)
qed

lemmas compose_defs = compose_content_def lightning_callback_def addBitcoind_def addLnd_def
  addClightning_def addEclair_def add_lightning_def resolveBackend_def set_service_def
  new_ComposeFile_def

lemmas node_defs = backend1_def backend2_def backend3_def alice_def bob_def carol_def

lemma compose_content_services:
  assumes names: "distinct (map CommonNode.name (bitcoin (Network.nodes network))
                            @ map CommonNode.name (lightning (Network.nodes network)))"
    and tags: "\<forall>ln \<in> set (lightning (Network.nodes network)).
                 implementation ln \<in> {''LND'', ''c-lightning'', ''eclair''}"
    and backend: "bitcoin (Network.nodes network) \<noteq> [] \<or> lightning (Network.nodes network) = []"
  shows "\<exists>doc. compose_content network = Inr doc
      \<and> map fst (services doc)
          = map CommonNode.name (bitcoin (Network.nodes network))
            @ map CommonNode.name (lightning (Network.nodes network))
      \<and> (\<forall>n \<in> set (bitcoin (Network.nodes network)).
            map_of (services doc) (CommonNode.name n) = Some (bitcoin_service n))
      \<and> (\<forall>ln \<in> set (lightning (Network.nodes network)).
            \<exists>b \<in> set (bitcoin (Network.nodes network)).
              resolveBackend (bitcoin (Network.nodes network)) (backendName ln) = Some b
              \<and> map_of (services doc) (CommonNode.name ln) = Some (lightning_service ln b))"
proof -
  let ?bs = "bitcoin (Network.nodes network)"
  let ?ls = "lightning (Network.nodes network)"
  let ?val = "\<lambda>ln. lightning_service ln (the (resolveBackend ?bs (backendName ln)))"
  have "\<exists>f1. forEach addBitcoind ?bs new_ComposeFile = Inr f1
           \<and> map fst (services f1) = map fst (services new_ComposeFile) @ map CommonNode.name ?bs
           \<and> (\<forall>k. k \<notin> set (map CommonNode.name ?bs) \<longrightarrow>
                  map_of (services f1) k = map_of (services new_ComposeFile) k)
           \<and> (\<forall>x \<in> set ?bs. map_of (services f1) (CommonNode.name x) = Some (bitcoin_service x))"
    using names by (intro forEach_set_service) (simp_all add: addBitcoind_def new_ComposeFile_def)
  then obtain f1 where
    f1: "forEach addBitcoind ?bs new_ComposeFile = Inr f1"
    and k1: "map fst (services f1) = map CommonNode.name ?bs"
    and v1: "\<forall>x \<in> set ?bs. map_of (services f1) (CommonNode.name x) = Some (bitcoin_service x)"
    by (auto simp: new_ComposeFile_def)
  have res: "\<exists>b \<in> set ?bs. resolveBackend ?bs (backendName ln) = Some b" if "ln \<in> set ?ls" for ln
  proof -
    from that backend have "?bs \<noteq> []" by auto
    then show ?thesis by (rule resolveBackend_nonempty)
  qed
  have cb: "\<forall>ln \<in> set ?ls. \<forall>cf. lightning_callback ?bs ln cf
               = Inr (set_service (CommonNode.name ln) (?val ln) cf)"
  proof (intro ballI allI)
    fix ln cf assume ln: "ln \<in> set ?ls"
    from res [OF ln] obtain b where b: "resolveBackend ?bs (backendName ln) = Some b" by blast
    from tags ln have "implementation ln \<in> {''LND'', ''c-lightning'', ''eclair''}" by blast
    from lightning_callback_handled [OF this b, of cf] b
    show "lightning_callback ?bs ln cf = Inr (set_service (CommonNode.name ln) (?val ln) cf)"
      by simp
  qed
  have d2: "distinct (map CommonNode.name ?ls)" using names by simp
  have i2: "set (map CommonNode.name ?ls) \<inter> set (map fst (services f1)) = {}"
    using names unfolding k1 by auto
  from forEach_set_service [of ?ls "lightning_callback ?bs" CommonNode.name ?val f1, OF cb d2 i2]
  obtain doc where
    doc: "forEach (lightning_callback ?bs) ?ls f1 = Inr doc"
    and k2: "map fst (services doc) = map fst (services f1) @ map CommonNode.name ?ls"
    and fr: "\<forall>k. k \<notin> set (map CommonNode.name ?ls) \<longrightarrow> map_of (services doc) k = map_of (services f1) k"
    and v2: "\<forall>ln \<in> set ?ls. map_of (services doc) (CommonNode.name ln) = Some (?val ln)"
    by blast
  have 1: "compose_content network = Inr doc"
    using f1 doc by (simp add: compose_content_def)
  have 3: "map fst (services doc) = map CommonNode.name ?bs @ map CommonNode.name ?ls"
    using k2 k1 by simp
  have 4: "\<forall>n \<in> set ?bs. map_of (services doc) (CommonNode.name n) = Some (bitcoin_service n)"
  proof
    fix n assume n: "n \<in> set ?bs"
    with names have "CommonNode.name n \<notin> set (map CommonNode.name ?ls)" by auto
    with fr have "map_of (services doc) (CommonNode.name n) = map_of (services f1) (CommonNode.name n)"
      by blast
    with v1 n show "map_of (services doc) (CommonNode.name n) = Some (bitcoin_service n)" by simp
  qed
  have 5: "\<forall>ln \<in> set ?ls. \<exists>b \<in> set ?bs. resolveBackend ?bs (backendName ln) = Some b
              \<and> map_of (services doc) (CommonNode.name ln) = Some (lightning_service ln b)"
  proof
    fix ln assume ln: "ln \<in> set ?ls"
    from res [OF ln] obtain b where b: "b \<in> set ?bs" "resolveBackend ?bs (backendName ln) = Some b"
      by blast
    with v2 ln have "map_of (services doc) (CommonNode.name ln) = Some (lightning_service ln b)"
      by simp
    with b show "\<exists>b \<in> set ?bs. resolveBackend ?bs (backendName ln) = Some b
              \<and> map_of (services doc) (CommonNode.name ln) = Some (lightning_service ln b)"
      by blast
  qed
  from 1 3 4 5 show ?thesis by blast
qed

text \<open>
  Claim C1. For every network of the data model, that is, with node names pairwise
  distinct, with every lightning node carrying one of the implementation tags LND,
  c-lightning and eclair, and with a bitcoin node whenever there is a lightning node,
  \<^verbatim>\<open>saveComposeFile\<close> writes a document that holds exactly one service for every bitcoin
  node and every lightning node, in that order and named by the node's name; the
  service of a bitcoin node is the one of that node, the service of a lightning node is
  the one of that node with its resolved backend.
\<close>

theorem saveComposeFile_complete:
  assumes names: "distinct (map CommonNode.name (bitcoin (Network.nodes network))
                            @ map CommonNode.name (lightning (Network.nodes network)))"
    and tags: "\<forall>ln \<in> set (lightning (Network.nodes network)).
                 implementation ln \<in> {''LND'', ''c-lightning'', ''eclair''}"
    and backend: "bitcoin (Network.nodes network) \<noteq> [] \<or> lightning (Network.nodes network) = []"
  shows "\<exists>doc. compose_content network = Inr doc
      \<and> saveComposeFile ev network f
          = (Inr (), fs_write (join (path network) ''docker-compose.yml'') (yaml_dump ev doc) f)
      \<and> map fst (services doc)
          = map CommonNode.name (bitcoin (Network.nodes network))
            @ map CommonNode.name (lightning (Network.nodes network))
      \<and> (\<forall>n \<in> set (bitcoin (Network.nodes network)).
            map_of (services doc) (CommonNode.name n) = Some (bitcoin_service n))
      \<and> (\<forall>ln \<in> set (lightning (Network.nodes network)).
            \<exists>b \<in> set (bitcoin (Network.nodes network)).
              resolveBackend (bitcoin (Network.nodes network)) (backendName ln) = Some b
              \<and> map_of (services doc) (CommonNode.name ln) = Some (lightning_service ln b))"
proof -
  from compose_content_services [OF names tags backend] obtain doc where
    d: "compose_content network = Inr doc"
    and k: "map fst (services doc)
          = map CommonNode.name (bitcoin (Network.nodes network))
            @ map CommonNode.name (lightning (Network.nodes network))"
    and vb: "\<forall>n \<in> set (bitcoin (Network.nodes network)).
            map_of (services doc) (CommonNode.name n) = Some (bitcoin_service n)"
    and vl: "\<forall>ln \<in> set (lightning (Network.nodes network)).
            \<exists>b \<in> set (bitcoin (Network.nodes network)).
              resolveBackend (bitcoin (Network.nodes network)) (backendName ln) = Some b
              \<and> map_of (services doc) (CommonNode.name ln) = Some (lightning_service ln b)"
    by blast
  from d have w: "saveComposeFile ev network f
          = (Inr (), fs_write (join (path network) ''docker-compose.yml'') (yaml_dump ev doc) f)"
    by (simp add: saveComposeFile_def Let_def)
  show ?thesis
    by (rule exI [of _ doc], intro conjI, rule d, rule w, rule k, rule vb, rule vl)
qed

theorem saveComposeFile_complete_witness:
  "distinct (map CommonNode.name (bitcoin (Network.nodes network1))
             @ map CommonNode.name (lightning (Network.nodes network1)))
   \<and> implementation ` set (lightning (Network.nodes network1)) \<subseteq> {''LND'', ''c-lightning'', ''eclair''}
   \<and> bitcoin (Network.nodes network1) \<noteq> []
   \<and> (\<exists>doc. compose_content network1 = Inr doc
         \<and> map fst (services doc) = [''backend1'', ''backend2'', ''backend3'', ''alice'', ''bob'', ''carol'']
         \<and> files (snd (saveComposeFile sample_env network1 empty_fs)) ''/polar/networks/1/docker-compose.yml''
             = Some (sample_dump doc))"
proof -
  have a: "distinct (map CommonNode.name (bitcoin (Network.nodes network1))
             @ map CommonNode.name (lightning (Network.nodes network1)))"
    by (simp add: network1_def node_defs)
  have b: "\<forall>ln \<in> set (lightning (Network.nodes network1)).
                 implementation ln \<in> {''LND'', ''c-lightning'', ''eclair''}"
    by (simp add: network1_def node_defs)
  have c: "bitcoin (Network.nodes network1) \<noteq> [] \<or> lightning (Network.nodes network1) = []"
    by (simp add: network1_def)
  from saveComposeFile_complete [OF a b c, of sample_env empty_fs] obtain doc where
    d: "compose_content network1 = Inr doc"
    "saveComposeFile sample_env network1 empty_fs
          = (Inr (), fs_write (join (path network1) ''docker-compose.yml'') (yaml_dump sample_env doc) empty_fs)"
    "map fst (services doc)
          = map CommonNode.name (bitcoin (Network.nodes network1))
            @ map CommonNode.name (lightning (Network.nodes network1))"
    by blast
  have n: "map CommonNode.name (bitcoin (Network.nodes network1))
            @ map CommonNode.name (lightning (Network.nodes network1))
            = [''backend1'', ''backend2'', ''backend3'', ''alice'', ''bob'', ''carol'']"
    by (simp add: network1_def node_defs)
  have p: "join (path network1) ''docker-compose.yml'' = ''/polar/networks/1/docker-compose.yml''"
    by (simp add: join_def network1_def)
  have y: "yaml_dump sample_env = sample_dump" by (simp add: sample_env_def)
  from d n have "compose_content network1 = Inr doc
         \<and> map fst (services doc) = [''backend1'', ''backend2'', ''backend3'', ''alice'', ''bob'', ''carol'']
         \<and> files (snd (saveComposeFile sample_env network1 empty_fs)) ''/polar/networks/1/docker-compose.yml''
             = Some (sample_dump doc)"
    by (simp add: p y fs_write_def)
  then have "\<exists>doc. compose_content network1 = Inr doc
         \<and> map fst (services doc) = [''backend1'', ''backend2'', ''backend3'', ''alice'', ''bob'', ''carol'']
         \<and> files (snd (saveComposeFile sample_env network1 empty_fs)) ''/polar/networks/1/docker-compose.yml''
             = Some (sample_dump doc)" ..
  moreover from b have "implementation ` set (lightning (Network.nodes network1))
                          \<subseteq> {''LND'', ''c-lightning'', ''eclair''}" by blast
  moreover have "bitcoin (Network.nodes network1) \<noteq> []" by (simp add: network1_def)
  ultimately show ?thesis using a by blast
qed

text \<open>
  Claim C2. In a network of the data model whose first bitcoin node is \<open>b\<close>, for every
  lightning node whose declared backend name is the name of no bitcoin node of the
  network, \<^verbatim>\<open>saveComposeFile\<close> does not fail: it writes the document, and in that document
  the service of the lightning node is the one built with \<open>b\<close> as its backend, so it
  references the name and the credentials of the first bitcoin node.
\<close>

theorem fallback_to_first_bitcoin_node:
  assumes names: "distinct (map CommonNode.name (bitcoin (Network.nodes network))
                            @ map CommonNode.name (lightning (Network.nodes network)))"
    and tags: "\<forall>ln \<in> set (lightning (Network.nodes network)).
                 implementation ln \<in> {''LND'', ''c-lightning'', ''eclair''}"
    and first: "bitcoin (Network.nodes network) = b # rest"
    and ln: "ln \<in> set (lightning (Network.nodes network))"
    and dangling: "\<forall>n \<in> set (bitcoin (Network.nodes network)). CommonNode.name n \<noteq> backendName ln"
  shows "\<exists>doc. saveComposeFile ev network f
                 = (Inr (), fs_write (join (path network) ''docker-compose.yml'') (yaml_dump ev doc) f)
           \<and> map_of (services doc) (CommonNode.name ln) = Some (lightning_service ln b)
           \<and> svc_backend (lightning_service ln b) = Some (CommonNode.name b, rpcCredentials b)"
proof -
  have ne: "bitcoin (Network.nodes network) \<noteq> [] \<or> lightning (Network.nodes network) = []"
    by (simp add: first)
  from compose_content_services [OF names tags ne] obtain doc where
    d: "compose_content network = Inr doc"
    and vl: "\<forall>ln \<in> set (lightning (Network.nodes network)).
            \<exists>b \<in> set (bitcoin (Network.nodes network)).
              resolveBackend (bitcoin (Network.nodes network)) (backendName ln) = Some b
              \<and> map_of (services doc) (CommonNode.name ln) = Some (lightning_service ln b)"
    by blast
  from vl ln obtain b' where
    b': "resolveBackend (bitcoin (Network.nodes network)) (backendName ln) = Some b'"
        "map_of (services doc) (CommonNode.name ln) = Some (lightning_service ln b')"
    by blast
  have "resolveBackend (bitcoin (Network.nodes network)) (backendName ln) = Some b"
    using dangling unfolding first by (rule resolveBackend_fallback)
  with b'(1) have "b' = b" by simp
  with b'(2) have v: "map_of (services doc) (CommonNode.name ln) = Some (lightning_service ln b)"
    by simp
  from d have w: "saveComposeFile ev network f
          = (Inr (), fs_write (join (path network) ''docker-compose.yml'') (yaml_dump ev doc) f)"
    by (simp add: saveComposeFile_def Let_def)
  have c: "svc_backend (lightning_service ln b) = Some (CommonNode.name b, rpcCredentials b)"
    by (simp add: lightning_service_def)
  show ?thesis
    by (rule exI [of _ doc], intro conjI, rule w, rule v, rule c)
qed

theorem fallback_to_first_bitcoin_node_witness:
  "bitcoin (Network.nodes network1) = backend1 # [backend2, backend3]
   \<and> bob \<in> set (lightning (Network.nodes network1))
   \<and> backendName bob \<notin> CommonNode.name ` set (bitcoin (Network.nodes network1))
   \<and> (\<exists>doc. saveComposeFile sample_env network1 empty_fs
                = (Inr (), fs_write ''/polar/networks/1/docker-compose.yml'' (sample_dump doc) empty_fs)
          \<and> map_of (services doc) ''bob'' = Some (lightning_service bob backend1))
   \<and> svc_backend (lightning_service bob backend1) = Some (''backend1'', ''polaruser:polarpass'')"
proof -
  have n: "distinct (map CommonNode.name (bitcoin (Network.nodes network1))
             @ map CommonNode.name (lightning (Network.nodes network1)))"
    by (simp add: network1_def node_defs)
  have t: "\<forall>ln \<in> set (lightning (Network.nodes network1)).
                 implementation ln \<in> {''LND'', ''c-lightning'', ''eclair''}"
    by (simp add: network1_def node_defs)
  have a: "bitcoin (Network.nodes network1) = backend1 # [backend2, backend3]"
    by (simp add: network1_def)
  have b: "bob \<in> set (lightning (Network.nodes network1))"
    by (simp add: network1_def)
  have c: "\<forall>n \<in> set (bitcoin (Network.nodes network1)). CommonNode.name n \<noteq> backendName bob"
    by (simp add: network1_def node_defs)
  have p: "join (path network1) ''docker-compose.yml'' = ''/polar/networks/1/docker-compose.yml''"
    by (simp add: join_def network1_def)
  have y: "yaml_dump sample_env = sample_dump" by (simp add: sample_env_def)
  have nm: "CommonNode.name bob = ''bob''" by (simp add: bob_def)
  have cr: "(CommonNode.name backend1, rpcCredentials backend1) = (''backend1'', ''polaruser:polarpass'')"
    by (simp add: backend1_def)
  from fallback_to_first_bitcoin_node [OF n t a b c, of sample_env empty_fs]
  have 1: "\<exists>doc. saveComposeFile sample_env network1 empty_fs
                = (Inr (), fs_write ''/polar/networks/1/docker-compose.yml'' (sample_dump doc) empty_fs)
          \<and> map_of (services doc) ''bob'' = Some (lightning_service bob backend1)"
    and 2: "svc_backend (lightning_service bob backend1) = Some (''backend1'', ''polaruser:polarpass'')"
    unfolding p y nm using cr by auto
  from c have 3: "backendName bob \<notin> CommonNode.name ` set (bitcoin (Network.nodes network1))"
    by auto
  from a b 3 1 2 show ?thesis by blast
qed

subsection \<open>Saving and loading the networks\<close>





end
